theory Spec2Isabelle
  imports Main "HOL-Library.Word" "HOL-Library.Monad_Syntax" "HOL-Library.Sublist"
begin

chapter \<open>The core of the constraint solver: trail, queue, search\<close>

text \<open>
  A shallow embedding of \<^verbatim>\<open>src/constraint_solver/constraint_solver.cc\<close>.
  Objects the C++ code refers to by pointer (demons, actions, constraints, monitors,
  decisions, memory cells) are identified by their address, a natural number; a pointer
  that may be \<^verbatim>\<open>NULL\<close> is an \<open>option\<close>. A data member \<^verbatim>\<open>foo_\<close> of a class is
  the field \<open>foo\<close> of the record of that class.
\<close>

section \<open>Reversible cells\<close>

type_synonym addr = nat

text \<open>\<^verbatim>\<open>template <class T> struct addrval\<close>: an address and the value that was there.\<close>

record 'v addrval =
  address :: "addr option"
  old_value :: 'v

text \<open>\<^verbatim>\<open>explicit addrval(T* adr) : address_(adr), old_value_(*adr)\<close>, on a store of values
  of type \<open>T\<close>.\<close>

definition addrval :: "addr \<Rightarrow> (addr \<Rightarrow> 'v) \<Rightarrow> 'v addrval" where
  "addrval adr store = \<lparr>address = Some adr, old_value = store adr\<rparr>"

text \<open>\<^verbatim>\<open>void restore() const { (*address_) = old_value_; }\<close>; writing through the
  \<^verbatim>\<open>NULL\<close> address of a default-constructed cell has no defined result.\<close>

definition restore :: "'v addrval \<Rightarrow> (addr \<Rightarrow> 'v) \<Rightarrow> (addr \<Rightarrow> 'v) option" where
  "restore cell store =
     (case address cell of
        None \<Rightarrow> None
      | Some a \<Rightarrow> Some (store(a := old_value cell)))"

section \<open>Trail packers\<close>

text \<open>
  The packers work on the bytes of a block of cells. The layout of
  \<^verbatim>\<open>addrval<T>\<close> in memory is fixed by the compiler, not by this file: it is a
  parameter, giving the bytes of an array of cells (what
  \<^verbatim>\<open>reinterpret_cast<const Bytef*>(block)\<close> reads), the cells a sequence of bytes
  stands for when it is written over a block, and the cell whose bytes are all zero.
\<close>

record 'c cell_image =
  to_bytes :: "'c list \<Rightarrow> string"
  of_bytes :: "string \<Rightarrow> 'c list"
  zero_cell :: 'c

text \<open>
  \<^verbatim>\<open>compress\<close> and \<^verbatim>\<open>uncompress\<close> come from the zlib library
  (\<^verbatim>\<open>#include "zlib.h"\<close>); they are parameters. \<open>None\<close> stands for any return
  code other than \<^verbatim>\<open>Z_OK\<close>.
\<close>

record zlib =
  compress :: "string \<Rightarrow> string option"
  uncompress :: "string \<Rightarrow> string option"

text \<open>
  \<^verbatim>\<open>template <class T> class TrailPacker\<close>: the two virtual functions. \<open>Pack\<close>
  returns the packed block, \<open>Unpack\<close> the new contents of the block it writes into;
  \<open>None\<close> is a failed \<^verbatim>\<open>CHECK_EQ(Z_OK, result)\<close>. Both packers read the
  \<^verbatim>\<open>input_size()\<close> bytes of a whole block and write a whole block.
\<close>

record 'c TrailPacker =
  Pack :: "'c list \<Rightarrow> string option"
  Unpack :: "string \<Rightarrow> 'c list \<Rightarrow> 'c list option"

definition NoCompressionTrailPacker :: "'c cell_image \<Rightarrow> 'c TrailPacker" where
  "NoCompressionTrailPacker R =
     \<lparr>Pack = (\<lambda>block. Some (to_bytes R block)),
      Unpack = (\<lambda>packed_block block. Some (of_bytes R packed_block))\<rparr>"

definition ZlibTrailPacker :: "'c cell_image \<Rightarrow> zlib \<Rightarrow> 'c TrailPacker" where
  "ZlibTrailPacker R Z =
     \<lparr>Pack = (\<lambda>block. compress Z (to_bytes R block)),
      Unpack = (\<lambda>packed_block block.
                 case uncompress Z packed_block of
                   None \<Rightarrow> None
                 | Some bytes \<Rightarrow> Some (of_bytes R bytes))\<rparr>"

section \<open>Compressed trail\<close>

datatype TrailCompression = NO_COMPRESSION | COMPRESS_WITH_ZLIB

text \<open>
  \<^verbatim>\<open>template <class T> class CompressedTrail\<close>. The linked lists \<^verbatim>\<open>blocks_\<close> and
  \<^verbatim>\<open>free_blocks_\<close> are the lists of their \<^verbatim>\<open>compressed\<close> strings, head first.
\<close>

record 'c CompressedTrail =
  packer :: "'c TrailPacker"
  block_size :: int
  blocks :: "string list"
  free_blocks :: "string list"
  data :: "'c list"
  buffer :: "'c list"
  buffer_used :: bool
  current :: int
  ct_size :: int

definition CompressedTrail ::
  "'c cell_image \<Rightarrow> zlib \<Rightarrow> int \<Rightarrow> TrailCompression \<Rightarrow> 'c CompressedTrail" where
  "CompressedTrail R Z bs compression_level =
     \<lparr>packer = (case compression_level of
                   NO_COMPRESSION \<Rightarrow> NoCompressionTrailPacker R
                 | COMPRESS_WITH_ZLIB \<Rightarrow> ZlibTrailPacker R Z),
      block_size = bs,
      blocks = [],
      free_blocks = [],
      data = replicate (nat bs) (zero_cell R),
      buffer = replicate (nat bs) (zero_cell R),
      buffer_used = False,
      current = 0,
      ct_size = 0\<rparr>"

text \<open>\<^verbatim>\<open>Back()\<close>; \<open>None\<close> where \<^verbatim>\<open>DCHECK_GT(current_, 0)\<close> fails.\<close>

definition Back :: "'c CompressedTrail \<Rightarrow> 'c option" where
  "Back t =
     (if 0 < current t \<and> nat (current t - 1) < length (data t)
      then Some (data t ! nat (current t - 1))
      else None)"

definition FreeTopBlock :: "'c CompressedTrail \<Rightarrow> 'c CompressedTrail" where
  "FreeTopBlock t = t\<lparr>blocks := tl (blocks t), free_blocks := [] # free_blocks t\<rparr>"


definition PopBack :: "'c CompressedTrail \<Rightarrow> 'c CompressedTrail option" where
  "PopBack t =
     (if 0 < ct_size t then
        do {
          let t = t\<lparr>current := current t - 1\<rparr>;
          t \<leftarrow> (if current t \<le> 0 then
                  (if buffer_used t then
                     Some (t\<lparr>data := buffer t, buffer := data t,
                             current := block_size t, buffer_used := False\<rparr>)
                   else if blocks t \<noteq> [] then
                     do {
                       block \<leftarrow> Unpack (packer t) (hd (blocks t)) (data t);
                       Some ((FreeTopBlock (t\<lparr>data := block\<rparr>))\<lparr>current := block_size t\<rparr>)
                     }
                   else Some t)
                else Some t);
          Some (t\<lparr>ct_size := ct_size t - 1\<rparr>)
        }
      else Some t)"


text \<open>\<^verbatim>\<open>int size() const { return size_; }\<close>\<close>

definition size_trail :: "'c CompressedTrail \<Rightarrow> int" where
  "size_trail t = ct_size t"

subsection \<open>Sequences of pushes and pops, and what they show\<close>








subsection \<open>What is assumed of the compiler and of zlib\<close>




definition rev_zlib :: zlib where
  "rev_zlib = \<lparr>compress = (\<lambda>x. Some (rev x)), uncompress = (\<lambda>y. Some (rev y))\<rparr>"





section \<open>Memory\<close>

text \<open>
  The locations the solver and its clients save and write, one store for each type of
  value the trail can save. \<open>released\<close> is the list of the deallocations the trail
  has carried out, the latest last.
\<close>

datatype release = Delete addr | DeleteArray addr

record Memory =
  ints :: "addr \<Rightarrow> 32 word"
  int64s :: "addr \<Rightarrow> 64 word"
  uint64s :: "addr \<Rightarrow> 64 word"
  ptrs :: "addr \<Rightarrow> addr option"
  bools :: "addr \<Rightarrow> bool"
  released :: "release list"

section \<open>State markers\<close>

datatype MarkerType = SENTINEL | SIMPLE_MARKER | CHOICE_POINT | REVERSIBLE_ACTION

record StateInfo =
  ptr_info :: "addr option"
  int_info :: int
  depth :: int
  left_depth :: int


definition StateInfo2 :: "addr option \<Rightarrow> int \<Rightarrow> StateInfo" where
  "StateInfo2 pinfo iinfo = \<lparr>ptr_info = pinfo, int_info = iinfo, depth = 0, left_depth = 0\<rparr>"

definition StateInfo4 :: "addr option \<Rightarrow> int \<Rightarrow> int \<Rightarrow> int \<Rightarrow> StateInfo" where
  "StateInfo4 pinfo iinfo d ld = \<lparr>ptr_info = pinfo, int_info = iinfo, depth = d, left_depth = ld\<rparr>"

record StateMarker =
  marker_type :: MarkerType
  rev_int_index :: int
  rev_int64_index :: int
  rev_uint64_index :: int
  rev_ptr_index :: int
  rev_boolvar_list_index :: int
  rev_bools_index :: int
  rev_int_memory_index :: int
  rev_int64_memory_index :: int
  rev_object_memory_index :: int
  rev_object_array_memory_index :: int
  rev_memory_index :: int
  rev_memory_array_index :: int
  info :: StateInfo

text \<open>
  \<^verbatim>\<open>StateMarker::StateMarker(t, info)\<close>. The constructor leaves
  \<^verbatim>\<open>rev_memory_index_\<close> and \<^verbatim>\<open>rev_memory_array_index_\<close> unset; they are read
  only by \<^verbatim>\<open>BacktrackTo\<close>, which is called only on markers whose indices
  \<^verbatim>\<open>PushState\<close> has assigned. They are 0 here.
\<close>

definition StateMarker :: "MarkerType \<Rightarrow> StateInfo \<Rightarrow> StateMarker" where
  "StateMarker t i =
     \<lparr>marker_type = t,
      rev_int_index = 0, rev_int64_index = 0, rev_uint64_index = 0, rev_ptr_index = 0,
      rev_boolvar_list_index = 0, rev_bools_index = 0,
      rev_int_memory_index = 0, rev_int64_memory_index = 0,
      rev_object_memory_index = 0, rev_object_array_memory_index = 0,
      rev_memory_index = 0, rev_memory_array_index = 0,
      info = i\<rparr>"

section \<open>Trail\<close>

record Trail =
  rev_ints :: "32 word addrval CompressedTrail"
  rev_int64s :: "64 word addrval CompressedTrail"
  rev_uint64s :: "64 word addrval CompressedTrail"
  rev_ptrs :: "addr option addrval CompressedTrail"
  rev_boolvar_list :: "addr option list"
  rev_bools :: "addr option list"
  rev_bool_value :: "bool list"
  rev_int_memory :: "addr option list"
  rev_int64_memory :: "addr option list"
  rev_object_memory :: "addr option list"
  rev_object_array_memory :: "addr option list"
  rev_memory :: "addr option list"
  rev_memory_array :: "addr option list"

text \<open>The memory layouts of the four kinds of cell.\<close>

record cell_images =
  int_image :: "32 word addrval cell_image"
  int64_image :: "64 word addrval cell_image"
  uint64_image :: "64 word addrval cell_image"
  ptr_image :: "addr option addrval cell_image"

text \<open>\<^verbatim>\<open>Trail(int block_size, SolverParameters::TrailCompression compression_level)\<close>\<close>

definition Trail :: "cell_images \<Rightarrow> zlib \<Rightarrow> int \<Rightarrow> TrailCompression \<Rightarrow> Trail" where
  "Trail R Z bs compression_level =
     \<lparr>rev_ints = CompressedTrail (int_image R) Z bs compression_level,
      rev_int64s = CompressedTrail (int64_image R) Z bs compression_level,
      rev_uint64s = CompressedTrail (uint64_image R) Z bs compression_level,
      rev_ptrs = CompressedTrail (ptr_image R) Z bs compression_level,
      rev_boolvar_list = [], rev_bools = [], rev_bool_value = [],
      rev_int_memory = [], rev_int64_memory = [], rev_object_memory = [],
      rev_object_array_memory = [], rev_memory = [], rev_memory_array = []\<rparr>"

text \<open>
  One of the first four loops of \<^verbatim>\<open>BacktrackTo\<close>:
  \<^verbatim>\<open>for (int curr = t.size(); curr > target; --curr) { cell = t.Back(); cell.restore(); t.PopBack(); }\<close>
  The number of rounds is fixed when the loop starts.
\<close>

fun restore_cells ::
  "nat \<Rightarrow> 'v addrval CompressedTrail \<Rightarrow> (addr \<Rightarrow> 'v)
     \<Rightarrow> ('v addrval CompressedTrail \<times> (addr \<Rightarrow> 'v)) option" where
  "restore_cells 0 t store = Some (t, store)"
| "restore_cells (Suc k) t store =
     do {
       cell \<leftarrow> Back t;
       store \<leftarrow> restore cell store;
       t \<leftarrow> PopBack t;
       restore_cells k t store
     }"

definition backtrack_cells ::
  "int \<Rightarrow> 'v addrval CompressedTrail \<Rightarrow> (addr \<Rightarrow> 'v)
     \<Rightarrow> ('v addrval CompressedTrail \<times> (addr \<Rightarrow> 'v)) option" where
  "backtrack_cells target t store = restore_cells (nat (size_trail t - target)) t store"

text \<open>The indices \<^verbatim>\<open>curr\<close> of a loop
  \<^verbatim>\<open>for (int curr = v.size() - 1; curr >= target; --curr)\<close>, in the order it visits them.\<close>

definition indices_down :: "int \<Rightarrow> 'a list \<Rightarrow> nat list" where
  "indices_down target v = rev [nat target ..< length v]"

text \<open>\<^verbatim>\<open>std::vector::resize(n)\<close>, with the value new elements are given.\<close>

definition resize :: "int \<Rightarrow> 'a \<Rightarrow> 'a list \<Rightarrow> 'a list" where
  "resize n d v = take (nat n) v @ replicate (nat n - length v) d"

text \<open>\<^verbatim>\<open>*(rev_bools_[curr]) = rev_bool_value_[curr]\<close> for each index in turn.\<close>

fun restore_bools ::
  "nat list \<Rightarrow> addr option list \<Rightarrow> bool list \<Rightarrow> (addr \<Rightarrow> bool) \<Rightarrow> (addr \<Rightarrow> bool) option" where
  "restore_bools [] ps vs store = Some store"
| "restore_bools (i # rest) ps vs store =
     (if i < length ps \<and> i < length vs then
        (case ps ! i of
           None \<Rightarrow> None
         | Some a \<Rightarrow> restore_bools rest ps vs (store(a := vs ! i)))
      else None)"

text \<open>
  \<^verbatim>\<open>RestoreBoolValue(var)\<close> for each index in turn. \<^verbatim>\<open>RestoreBoolValue\<close> is declared
  \<^verbatim>\<open>extern\<close> and defined in another file: it is a parameter.
\<close>

fun restore_boolvars ::
  "(addr \<Rightarrow> Memory \<Rightarrow> Memory) \<Rightarrow> nat list \<Rightarrow> addr option list \<Rightarrow> Memory \<Rightarrow> Memory option" where
  "restore_boolvars RestoreBoolValue [] vars M = Some M"
| "restore_boolvars RestoreBoolValue (i # rest) vars M =
     (if i < length vars then
        (case vars ! i of
           None \<Rightarrow> None
         | Some var \<Rightarrow> restore_boolvars RestoreBoolValue rest vars (RestoreBoolValue var M))
      else None)"

text \<open>\<^verbatim>\<open>delete v[curr]\<close> or \<^verbatim>\<open>delete[] v[curr]\<close> for each index in turn; deleting
  \<^verbatim>\<open>NULL\<close> does nothing.\<close>

fun release_all :: "(addr \<Rightarrow> release) \<Rightarrow> nat list \<Rightarrow> addr option list \<Rightarrow> release list \<Rightarrow> release list" where
  "release_all how [] v log = log"
| "release_all how (i # rest) v log =
     release_all how rest v
       (if i < length v then (case v ! i of None \<Rightarrow> log | Some p \<Rightarrow> log @ [how p]) else log)"

text \<open>\<^verbatim>\<open>void Trail::BacktrackTo(StateMarker* m)\<close>, on the trail and the memory.\<close>

definition BacktrackTo ::
  "(addr \<Rightarrow> Memory \<Rightarrow> Memory) \<Rightarrow> StateMarker \<Rightarrow> Trail \<times> Memory \<Rightarrow> (Trail \<times> Memory) option" where
  "BacktrackTo RestoreBoolValue m TM =
     (case TM of (T, M) \<Rightarrow>
     do {
       (t, store) \<leftarrow> backtrack_cells (rev_int_index m) (rev_ints T) (ints M);
       let T = T\<lparr>rev_ints := t\<rparr>; let M = M\<lparr>ints := store\<rparr>;
       (t, store) \<leftarrow> backtrack_cells (rev_int64_index m) (rev_int64s T) (int64s M);
       let T = T\<lparr>rev_int64s := t\<rparr>; let M = M\<lparr>int64s := store\<rparr>;
       (t, store) \<leftarrow> backtrack_cells (rev_uint64_index m) (rev_uint64s T) (uint64s M);
       let T = T\<lparr>rev_uint64s := t\<rparr>; let M = M\<lparr>uint64s := store\<rparr>;
       (t, store) \<leftarrow> backtrack_cells (rev_ptr_index m) (rev_ptrs T) (ptrs M);
       let T = T\<lparr>rev_ptrs := t\<rparr>; let M = M\<lparr>ptrs := store\<rparr>;
       M \<leftarrow> restore_boolvars RestoreBoolValue
              (indices_down (rev_boolvar_list_index m) (rev_boolvar_list T)) (rev_boolvar_list T) M;
       let T = T\<lparr>rev_boolvar_list := resize (rev_boolvar_list_index m) None (rev_boolvar_list T)\<rparr>;
       store \<leftarrow> restore_bools (indices_down (rev_bools_index m) (rev_bools T))
                  (rev_bools T) (rev_bool_value T) (bools M);
       let M = M\<lparr>bools := store\<rparr>;
       let T = T\<lparr>rev_bools := resize (rev_bools_index m) None (rev_bools T),
                 rev_bool_value := resize (rev_bools_index m) False (rev_bool_value T)\<rparr>;
       let M = M\<lparr>released := release_all DeleteArray
                     (indices_down (rev_int_memory_index m) (rev_int_memory T))
                     (rev_int_memory T) (released M)\<rparr>;
       let T = T\<lparr>rev_int_memory := resize (rev_int_memory_index m) None (rev_int_memory T)\<rparr>;
       let M = M\<lparr>released := release_all DeleteArray
                     (indices_down (rev_int64_memory_index m) (rev_int64_memory T))
                     (rev_int64_memory T) (released M)\<rparr>;
       let T = T\<lparr>rev_int64_memory := resize (rev_int64_memory_index m) None (rev_int64_memory T)\<rparr>;
       let M = M\<lparr>released := release_all Delete
                     (indices_down (rev_object_memory_index m) (rev_object_memory T))
                     (rev_object_memory T) (released M)\<rparr>;
       let T = T\<lparr>rev_object_memory := resize (rev_object_memory_index m) None (rev_object_memory T)\<rparr>;
       let M = M\<lparr>released := release_all DeleteArray
                     (indices_down (rev_object_array_memory_index m) (rev_object_array_memory T))
                     (rev_object_array_memory T) (released M)\<rparr>;
       let T = T\<lparr>rev_object_array_memory :=
                   resize (rev_object_array_memory_index m) None (rev_object_array_memory T)\<rparr>;
       let M = M\<lparr>released := release_all Delete
                     (indices_down (rev_memory_index m) (rev_memory T))
                     (rev_memory T) (released M)\<rparr>;
       let T = T\<lparr>rev_memory := resize (rev_memory_index m) None (rev_memory T)\<rparr>;
       let M = M\<lparr>released := release_all DeleteArray
                     (indices_down (rev_memory_array_index m) (rev_memory_array T))
                     (rev_memory_array T) (released M)\<rparr>;
       let T = T\<lparr>rev_memory_array := resize (rev_memory_array_index m) None (rev_memory_array T)\<rparr>;
       Some (T, M)
     })"

text \<open>The twelve assignments of \<^verbatim>\<open>Solver::PushState\<close> that record the sizes of the
  trail in a marker.\<close>

definition record_trail_sizes :: "Trail \<Rightarrow> StateMarker \<Rightarrow> StateMarker" where
  "record_trail_sizes T m =
     m\<lparr>rev_int_index := size_trail (rev_ints T),
       rev_int64_index := size_trail (rev_int64s T),
       rev_uint64_index := size_trail (rev_uint64s T),
       rev_ptr_index := size_trail (rev_ptrs T),
       rev_boolvar_list_index := int (length (rev_boolvar_list T)),
       rev_bools_index := int (length (rev_bools T)),
       rev_int_memory_index := int (length (rev_int_memory T)),
       rev_int64_memory_index := int (length (rev_int64_memory T)),
       rev_object_memory_index := int (length (rev_object_memory T)),
       rev_object_array_memory_index := int (length (rev_object_array_memory T)),
       rev_memory_index := int (length (rev_memory T)),
       rev_memory_array_index := int (length (rev_memory_array T))\<rparr>"

subsection \<open>Saving a value\<close>






subsection \<open>Saves and writes between a marker and the return to it\<close>














text \<open>The cells the trail holds, oldest first: those of the four compressed trails, and
  those the two lists of the saved booleans stand for.\<close>

text \<open>\<^verbatim>\<open>restore()\<close> on the cells of a list, one after the other.\<close>
fun undo_cells :: "'v addrval list \<Rightarrow> (addr \<Rightarrow> 'v) \<Rightarrow> (addr \<Rightarrow> 'v) option" where
  "undo_cells [] store = Some store"
| "undo_cells (c # cs) store = do { store \<leftarrow> restore c store; undo_cells cs store }"

record saved_cells =
  int_cells :: "32 word addrval list"
  int64_cells :: "64 word addrval list"
  uint64_cells :: "64 word addrval list"
  ptr_cells :: "addr option addrval list"
  bool_cells :: "bool addrval list"


definition append_cells :: "saved_cells \<Rightarrow> saved_cells \<Rightarrow> saved_cells" where
  "append_cells A C =
     \<lparr>int_cells = int_cells A @ int_cells C, int64_cells = int64_cells A @ int64_cells C,
      uint64_cells = uint64_cells A @ uint64_cells C, ptr_cells = ptr_cells A @ ptr_cells C,
      bool_cells = bool_cells A @ bool_cells C\<rparr>"

definition undo_all :: "saved_cells \<Rightarrow> Memory \<Rightarrow> Memory option" where
  "undo_all C M =
     do {
       i \<leftarrow> undo_cells (rev (int_cells C)) (ints M);
       j \<leftarrow> undo_cells (rev (int64_cells C)) (int64s M);
       u \<leftarrow> undo_cells (rev (uint64_cells C)) (uint64s M);
       p \<leftarrow> undo_cells (rev (ptr_cells C)) (ptrs M);
       b \<leftarrow> undo_cells (rev (bool_cells C)) (bools M);
       Some (M\<lparr>ints := i, int64s := j, uint64s := u, ptrs := p, bools := b\<rparr>)
     }"



definition no_cells :: saved_cells where
  "no_cells = \<lparr>int_cells = [], int64_cells = [], uint64_cells = [], ptr_cells = [], bool_cells = []\<rparr>"




subsection \<open>A memory layout to try the statements on\<close>

text \<open>A cell is written as two numbers in unary, each closed by a \<open>0\<close>.\<close>

definition unary :: "nat \<Rightarrow> string" where
  "unary n = replicate n CHR ''1'' @ [CHR ''0'']"

fun runs :: "nat \<Rightarrow> string \<Rightarrow> nat list" where
  "runs n [] = []"
| "runs n (c # cs) = (if c = CHR ''1'' then runs (Suc n) cs else n # runs 0 cs)"

fun pair_up :: "nat list \<Rightarrow> (nat \<times> nat) list" where
  "pair_up (a # v # ns) = (a, v) # pair_up ns"
| "pair_up _ = []"

definition nat_of_ptr :: "addr option \<Rightarrow> nat" where
  "nat_of_ptr p = (case p of None \<Rightarrow> 0 | Some a \<Rightarrow> Suc a)"

definition ptr_of_nat :: "nat \<Rightarrow> addr option" where
  "ptr_of_nat n = (case n of 0 \<Rightarrow> None | Suc a \<Rightarrow> Some a)"

definition unary_image :: "('v \<Rightarrow> nat) \<Rightarrow> (nat \<Rightarrow> 'v) \<Rightarrow> 'v \<Rightarrow> 'v addrval cell_image" where
  "unary_image f g z =
     \<lparr>to_bytes = (\<lambda>cells. concat (map (\<lambda>c. unary (nat_of_ptr (address c)) @ unary (f (old_value c))) cells)),
      of_bytes = (\<lambda>s. map (\<lambda>(a, v). \<lparr>address = ptr_of_nat a, old_value = g v\<rparr>) (pair_up (runs 0 s))),
      zero_cell = \<lparr>address = None, old_value = z\<rparr>\<rparr>"

definition unary_images :: cell_images where
  "unary_images =
     \<lparr>int_image = unary_image unat of_nat 0,
      int64_image = unary_image unat of_nat 0,
      uint64_image = unary_image unat of_nat 0,
      ptr_image = unary_image nat_of_ptr ptr_of_nat None\<rparr>"

definition zero_memory :: Memory where
  "zero_memory =
     \<lparr>ints = (\<lambda>a. 0), int64s = (\<lambda>a. 0), uint64s = (\<lambda>a. 0), ptrs = (\<lambda>a. None),
      bools = (\<lambda>a. False), released = []\<rparr>"

text \<open>\<^verbatim>\<open>RestoreBoolValue\<close> left out: no boolean variable is on the trail in the examples.\<close>

definition no_RestoreBoolValue :: "addr \<Rightarrow> Memory \<Rightarrow> Memory" where
  "no_RestoreBoolValue var M = M"



section \<open>Demons and the propagation queue\<close>

text \<open>
  Modelled from the spec: the enumerations \<^verbatim>\<open>Solver::DemonPriority\<close>,
  \<^verbatim>\<open>Solver::SolverState\<close> and \<^verbatim>\<open>Solver::DecisionModification\<close> are declared in
  \<^verbatim>\<open>constraint_solver.h\<close>, which is not among the sources; the source uses their values
  by name and the spec lists them. \<^verbatim>\<open>kNumPriorities\<close> is 3.
\<close>

datatype DemonPriority = DELAYED_PRIORITY | VAR_PRIORITY | NORMAL_PRIORITY

datatype SolverState =
  OUTSIDE_SEARCH | IN_ROOT_NODE | IN_SEARCH | AT_SOLUTION | NO_MORE_SOLUTIONS | PROBLEM_INFEASIBLE

datatype DecisionModification = NO_CHANGE | KEEP_LEFT | KEEP_RIGHT | KILL_BOTH | SWITCH_BRANCHES

text \<open>
  \<^verbatim>\<open>class FifoPriorityQueue\<close>. \<open>first_to_last\<close> is the list of cells that starts at
  \<^verbatim>\<open>first_\<close> and ends at \<^verbatim>\<open>last_\<close>, \<open>free_cells\<close> the list that starts at
  \<^verbatim>\<open>free_cells_\<close>; a cell is given by the demon it holds.
\<close>

record FifoPriorityQueue =
  first_to_last :: "addr list"
  free_cells :: "addr list"

definition FifoPriorityQueue :: FifoPriorityQueue where
  "FifoPriorityQueue = \<lparr>first_to_last = [], free_cells = []\<rparr>"

definition Fifo_Empty :: "FifoPriorityQueue \<Rightarrow> bool" where
  "Fifo_Empty q \<longleftrightarrow> first_to_last q = []"

definition Fifo_NextDemon :: "FifoPriorityQueue \<Rightarrow> addr option \<times> FifoPriorityQueue" where
  "Fifo_NextDemon q =
     (case first_to_last q of
        demon # rest \<Rightarrow> (Some demon, q\<lparr>first_to_last := rest, free_cells := demon # free_cells q\<rparr>)
      | [] \<Rightarrow> (None, q))"

definition Fifo_Enqueue :: "addr \<Rightarrow> FifoPriorityQueue \<Rightarrow> FifoPriorityQueue" where
  "Fifo_Enqueue d q =
     (case free_cells q of
        cell # rest \<Rightarrow> q\<lparr>free_cells := rest, first_to_last := first_to_last q @ [d]\<rparr>
      | [] \<Rightarrow> q\<lparr>first_to_last := first_to_last q @ [d]\<rparr>)"

definition Fifo_AfterFailure :: "FifoPriorityQueue \<Rightarrow> FifoPriorityQueue" where
  "Fifo_AfterFailure q =
     (if first_to_last q \<noteq> [] then
        q\<lparr>free_cells := first_to_last q @ free_cells q, first_to_last := []\<rparr>
      else q)"

text \<open>\<^verbatim>\<open>class Queue\<close>\<close>

record Queue =
  containers :: "DemonPriority \<Rightarrow> FifoPriorityQueue"
  stamp :: "64 word"
  freeze_level :: "32 word"
  in_process :: bool
  clear_action :: "addr option"
  to_add :: "addr list"
  in_add :: bool
  instruments_demons :: bool

text \<open>\<^verbatim>\<open>explicit Queue(Solver* const s)\<close>; the argument is
  \<^verbatim>\<open>s->InstrumentsDemons()\<close>.\<close>

definition Queue :: "bool \<Rightarrow> Queue" where
  "Queue instruments =
     \<lparr>containers = (\<lambda>i. FifoPriorityQueue), stamp = 1, freeze_level = 0, in_process = False,
      clear_action = None, to_add = [], in_add = False, instruments_demons = instruments\<rparr>"

section \<open>Search and solver\<close>

text \<open>\<^verbatim>\<open>class Search\<close>; \<^verbatim>\<open>fail_buffer_\<close> is the place \<open>Failure\<close> returns to.\<close>

record Search =
  marker_stack :: "StateMarker list"
  monitors :: "addr list"
  solution_counter :: int
  decision_builder :: "addr option"
  created_by_solve :: bool
  selector :: "addr option"
  search_depth :: int
  left_search_depth :: int
  should_restart :: bool
  should_finish :: bool
  sentinel_pushed :: int
  jmpbuf_filled :: bool

text \<open>\<^verbatim>\<open>explicit Search(Solver* const s)\<close> and the dummy search
  \<^verbatim>\<open>Search(Solver* const s, int)\<close>.\<close>

definition Search :: Search where
  "Search =
     \<lparr>marker_stack = [], monitors = [], solution_counter = 0, decision_builder = None,
      created_by_solve = False, selector = None, search_depth = 0, left_search_depth = 0,
      should_restart = False, should_finish = False, sentinel_pushed = 0, jmpbuf_filled = False\<rparr>"

definition Search_dummy :: Search where
  "Search_dummy = Search\<lparr>search_depth := - 1, left_search_depth := - 1\<rparr>"

text \<open>
  What has happened in the queue, oldest first. It is not a member of the solver: it is
  kept to state in which order demons run. \<open>Enqueued\<close>: \<^verbatim>\<open>Queue::Enqueue\<close> has put
  the demon in the container of that priority. \<open>Dispatched\<close>:
  \<^verbatim>\<open>Queue::ProcessOneDemon\<close> has taken the demon from the container of that priority,
  and the three lists are the demons that were in the containers of priority
  \<^verbatim>\<open>DELAYED\<close>, \<^verbatim>\<open>VAR\<close> and \<^verbatim>\<open>NORMAL\<close> just before. \<open>Stamped\<close>:
  \<^verbatim>\<open>stamp_++\<close>.
\<close>

datatype event =
    Enqueued DemonPriority addr
  | Dispatched DemonPriority addr "addr list" "addr list" "addr list"
  | Stamped

text \<open>
  \<^verbatim>\<open>class Solver\<close>: the members the functions below read or write. \<open>memory\<close> is the
  memory the trail saves and restores; the stamp of a demon is the \<^verbatim>\<open>uint64\<close> at the
  address of the demon. \<open>this\<close> is the address of the solver. \<open>propagation_monitors\<close> is the \<^verbatim>\<open>monitors_\<close> of the
  \<^verbatim>\<open>Trace\<close> object \<^verbatim>\<open>propagation_monitor_\<close>. \<open>fail_hooks\<close> lists the actions of
  \<^verbatim>\<open>fail_hooks_\<close> in the order its iterator gives them.
\<close>

record Solver =
  queue :: Queue
  trail :: Trail
  memory :: Memory
  state :: SolverState
  branches :: int
  fails :: int
  decisions :: int
  demon_runs :: "DemonPriority \<Rightarrow> int"
  searches :: "Search list"
  fail_hooks :: "addr list"
  fail_stamp :: "64 word"
  fail_intercept :: "addr option"
  fail_decision :: addr
  constraints_list :: "addr list"
  additional_constraints_list :: "addr list"
  additional_constraints_parent_list :: "int list"
  constraint_index :: int
  additional_constraint_index :: int
  propagation_monitor :: addr
  propagation_monitors :: "addr list"
  this :: addr
  history :: "event list"

subsection \<open>Results\<close>

text \<open>
  How a call ends: it returns a value; or \<^verbatim>\<open>CP_DO_FAIL\<close> is under way to the
  \<^verbatim>\<open>CP_ON_FAIL\<close> of the try region (\<^verbatim>\<open>longjmp\<close>, or \<^verbatim>\<open>throw FailException()\<close>
  in the variant without \<^verbatim>\<open>CP_FAST_BACKTRACK\<close>); or the process aborts (a failed
  \<^verbatim>\<open>CHECK\<close>, \<^verbatim>\<open>LOG(FATAL)\<close>, a read outside a vector); or the bound on the number
  of nested calls and loop rounds is reached. The state of the solver at that moment
  comes with it.
\<close>

datatype 'a outcome = Return 'a | Failure | Abort | OutOfFuel

type_synonym 'a result = "'a outcome \<times> Solver"

definition ok :: "Solver \<Rightarrow> unit result" where
  "ok S = (Return (), S)"

definition bind_result :: "'a result \<Rightarrow> ('a \<Rightarrow> Solver \<Rightarrow> 'b result) \<Rightarrow> 'b result" where
  "bind_result r f =
     (case r of
        (Return a, S) \<Rightarrow> f a S
      | (Failure, S) \<Rightarrow> (Failure, S)
      | (Abort, S) \<Rightarrow> (Abort, S)
      | (OutOfFuel, S) \<Rightarrow> (OutOfFuel, S))"

definition seq :: "unit result \<Rightarrow> (Solver \<Rightarrow> 'b result) \<Rightarrow> 'b result" where
  "seq r f = bind_result r (\<lambda>u. f)"

subsection \<open>Client code\<close>

text \<open>
  Demons, actions, constraints, monitors, decision builders and decisions are classes
  with virtual functions that clients of the solver define. A call of such a function is
  a list of calls back into the solver, which may depend on the state of the solver when
  the function is entered, and for some functions a returned value.
\<close>

datatype call =
    CallEnqueue addr
  | CallFreezeQueue
  | CallUnfreezeQueue
  | CallFail
  | CallAddConstraint addr
  | CallProcessDemonsOnQueue
  | CallFinishCurrentSearch
  | CallRestartCurrentSearch

datatype search_event =
    EnterSearch | RestartSearch | ExitSearch
  | BeginNextDecision addr | EndNextDecision addr "addr option"
  | ApplyDecision addr | RefuteDecision addr | AfterDecision addr bool
  | BeginFail | EndFail | BeginInitialPropagation | EndInitialPropagation | NoMoreSolutions

datatype propagation_event =
    BeginConstraintInitialPropagation addr
  | EndConstraintInitialPropagation addr
  | BeginNestedConstraintInitialPropagation addr addr
  | EndNestedConstraintInitialPropagation addr addr
  | BeginDemonRun addr
  | EndDemonRun addr

text \<open>
  \<open>MakeFalseConstraint\<close>, \<open>RestoreBoolValue\<close> and the flag \<^verbatim>\<open>cp_no_solve\<close> are
  declared in the source and defined elsewhere; \<open>MakeFalseConstraint\<close> gives the
  address of the constraint it makes. The flags \<^verbatim>\<open>cp_print_model\<close>,
  \<^verbatim>\<open>cp_model_stats\<close>, \<^verbatim>\<open>cp_export_file\<close>, \<^verbatim>\<open>cp_show_constraints\<close> and
  \<^verbatim>\<open>cp_profile_file\<close> only print or export; they are taken to be off.
\<close>

record client =
  Demon_priority :: "addr \<Rightarrow> DemonPriority"
  Demon_Run :: "addr \<Rightarrow> Solver \<Rightarrow> call list"
  Action_Run :: "addr \<Rightarrow> Solver \<Rightarrow> call list"
  Closure_Run :: "addr \<Rightarrow> Solver \<Rightarrow> call list"
  Constraint_Post :: "addr \<Rightarrow> Solver \<Rightarrow> call list"
  Constraint_InitialPropagate :: "addr \<Rightarrow> Solver \<Rightarrow> call list"
  SearchMonitor_event :: "search_event \<Rightarrow> addr \<Rightarrow> Solver \<Rightarrow> call list"
  SearchMonitor_AcceptSolution :: "addr \<Rightarrow> Solver \<Rightarrow> call list \<times> bool"
  SearchMonitor_AtSolution :: "addr \<Rightarrow> Solver \<Rightarrow> call list \<times> bool"
  PropagationMonitor_event :: "propagation_event \<Rightarrow> addr \<Rightarrow> Solver \<Rightarrow> call list"
  DecisionBuilder_Next :: "addr \<Rightarrow> Solver \<Rightarrow> call list \<times> addr option"
  Decision_Apply :: "addr \<Rightarrow> Solver \<Rightarrow> call list"
  Decision_Refute :: "addr \<Rightarrow> Solver \<Rightarrow> call list"
  Selector_Run :: "addr \<Rightarrow> Solver \<Rightarrow> DecisionModification"
  ReverseDecision :: "addr \<Rightarrow> addr"
  MakeFalseConstraint :: "Solver \<Rightarrow> addr"
  RestoreBoolValue :: "addr \<Rightarrow> Memory \<Rightarrow> Memory"
  FLAGS_cp_no_solve :: bool

text \<open>The execution of a list of calls, as far as it is known while the solver's own
  functions are being defined.\<close>

type_synonym runner = "call list \<Rightarrow> Solver \<Rightarrow> unit result"

text \<open>A loop \<^verbatim>\<open>for (it = v.begin(); it != v.end(); ++it) (*it)->f()\<close> over objects of
  clients.\<close>

fun run_each :: "runner \<Rightarrow> (addr \<Rightarrow> Solver \<Rightarrow> call list) \<Rightarrow> addr list \<Rightarrow> Solver \<Rightarrow> unit result" where
  "run_each run f [] S = ok S"
| "run_each run f (m # ms) S = seq (run (f m S) S) (run_each run f ms)"

subsection \<open>Demons\<close>

text \<open>Modelled from the spec: \<^verbatim>\<open>Demon::stamp()\<close> and \<^verbatim>\<open>Demon::set_stamp\<close> are
  declared in the header; they read and write the 64-bit \<^verbatim>\<open>stamp_\<close> of the demon.\<close>

definition Demon_stamp :: "Solver \<Rightarrow> addr \<Rightarrow> 64 word" where
  "Demon_stamp S demon = uint64s (memory S) demon"

definition Demon_set_stamp :: "addr \<Rightarrow> 64 word \<Rightarrow> Solver \<Rightarrow> Solver" where
  "Demon_set_stamp demon v S =
     S\<lparr>memory := (memory S)\<lparr>uint64s := (uint64s (memory S))(demon := v)\<rparr>\<rparr>"

subsection \<open>The queue\<close>

definition pending :: "Solver \<Rightarrow> DemonPriority \<Rightarrow> addr list" where
  "pending S prio = first_to_last (containers (queue S) prio)"

definition Queue_increase_stamp :: "Solver \<Rightarrow> Solver" where
  "Queue_increase_stamp S =
     S\<lparr>queue := (queue S)\<lparr>stamp := stamp (queue S) + 1\<rparr>, history := history S @ [Stamped]\<rparr>"

definition Queue_Freeze :: "Solver \<Rightarrow> Solver" where
  "Queue_Freeze S =
     S\<lparr>queue := (queue S)\<lparr>freeze_level := freeze_level (queue S) + 1,
                           stamp := stamp (queue S) + 1\<rparr>,
       history := history S @ [Stamped]\<rparr>"

text \<open>The fan-out of \<^verbatim>\<open>class Trace\<close> to the propagation monitors.\<close>

definition Trace_event :: "client \<Rightarrow> runner \<Rightarrow> propagation_event \<Rightarrow> Solver \<Rightarrow> unit result" where
  "Trace_event C run e S = run_each run (PropagationMonitor_event C e) (propagation_monitors S) S"

definition Queue_ProcessOneDemon :: "client \<Rightarrow> runner \<Rightarrow> DemonPriority \<Rightarrow> Solver \<Rightarrow> unit result" where
  "Queue_ProcessOneDemon C run prio S =
     (case Fifo_NextDemon (containers (queue S) prio) of
        (None, q) \<Rightarrow> ok S
      | (Some demon, q) \<Rightarrow>
          let S = S\<lparr>queue := (queue S)\<lparr>containers := (containers (queue S))(prio := q)\<rparr>,
                     history := history S @ [Dispatched prio demon (pending S DELAYED_PRIORITY)
                                               (pending S VAR_PRIORITY) (pending S NORMAL_PRIORITY)]\<rparr>;
              S = Demon_set_stamp demon (stamp (queue S) - 1) S
          in
          seq (if instruments_demons (queue S) then Trace_event C run (BeginDemonRun demon) S else ok S)
          (\<lambda>S. let S = S\<lparr>demon_runs := (demon_runs S)(prio := demon_runs S prio + 1)\<rparr> in
          seq (run (Demon_Run C demon S) S)
          (\<lambda>S. if instruments_demons (queue S) then Trace_event C run (EndDemonRun demon) S else ok S)))"

text \<open>\<^verbatim>\<open>while (!containers_[Solver::NORMAL_PRIORITY]->Empty()) ProcessOneDemon(Solver::NORMAL_PRIORITY);\<close>\<close>

fun Queue_ProcessNormalDemons :: "client \<Rightarrow> runner \<Rightarrow> nat \<Rightarrow> Solver \<Rightarrow> unit result" where
  "Queue_ProcessNormalDemons C run 0 S = (OutOfFuel, S)"
| "Queue_ProcessNormalDemons C run (Suc n) S =
     (if \<not> Fifo_Empty (containers (queue S) NORMAL_PRIORITY) then
        seq (Queue_ProcessOneDemon C run NORMAL_PRIORITY S) (Queue_ProcessNormalDemons C run n)
      else ok S)"

text \<open>The middle loop of \<^verbatim>\<open>Process\<close>.\<close>

fun Process_var_normal :: "client \<Rightarrow> runner \<Rightarrow> nat \<Rightarrow> Solver \<Rightarrow> unit result" where
  "Process_var_normal C run 0 S = (OutOfFuel, S)"
| "Process_var_normal C run (Suc n) S =
     (if \<not> Fifo_Empty (containers (queue S) VAR_PRIORITY) \<or>
         \<not> Fifo_Empty (containers (queue S) NORMAL_PRIORITY) then
        seq (Queue_ProcessNormalDemons C run n S)
        (\<lambda>S. seq (Queue_ProcessOneDemon C run VAR_PRIORITY S) (Process_var_normal C run n))
      else ok S)"

text \<open>The outer loop of \<^verbatim>\<open>Process\<close>.\<close>

fun Process_all :: "client \<Rightarrow> runner \<Rightarrow> nat \<Rightarrow> Solver \<Rightarrow> unit result" where
  "Process_all C run 0 S = (OutOfFuel, S)"
| "Process_all C run (Suc n) S =
     (if \<not> Fifo_Empty (containers (queue S) VAR_PRIORITY) \<or>
         \<not> Fifo_Empty (containers (queue S) NORMAL_PRIORITY) \<or>
         \<not> Fifo_Empty (containers (queue S) DELAYED_PRIORITY) then
        seq (Process_var_normal C run n S)
        (\<lambda>S. seq (Queue_ProcessOneDemon C run DELAYED_PRIORITY S) (Process_all C run n))
      else ok S)"

definition Queue_Process :: "client \<Rightarrow> runner \<Rightarrow> nat \<Rightarrow> Solver \<Rightarrow> unit result" where
  "Queue_Process C run n S =
     (if \<not> in_process (queue S) then
        seq (Process_all C run n (S\<lparr>queue := (queue S)\<lparr>in_process := True\<rparr>\<rparr>))
        (\<lambda>S. ok (S\<lparr>queue := (queue S)\<lparr>in_process := False\<rparr>\<rparr>))
      else ok S)"

definition Queue_ProcessIfUnfrozen :: "client \<Rightarrow> runner \<Rightarrow> nat \<Rightarrow> Solver \<Rightarrow> unit result" where
  "Queue_ProcessIfUnfrozen C run n S =
     (if freeze_level (queue S) = 0 then Queue_Process C run n S else ok S)"

definition Queue_Unfreeze :: "client \<Rightarrow> runner \<Rightarrow> nat \<Rightarrow> Solver \<Rightarrow> unit result" where
  "Queue_Unfreeze C run n S =
     Queue_ProcessIfUnfrozen C run n
       (S\<lparr>queue := (queue S)\<lparr>freeze_level := freeze_level (queue S) - 1\<rparr>\<rparr>)"

definition Queue_Enqueue :: "client \<Rightarrow> runner \<Rightarrow> nat \<Rightarrow> addr \<Rightarrow> Solver \<Rightarrow> unit result" where
  "Queue_Enqueue C run n demon S =
     (if Demon_stamp S demon < stamp (queue S) then
        let S = Demon_set_stamp demon (stamp (queue S)) S;
            prio = Demon_priority C demon;
            S = S\<lparr>queue := (queue S)\<lparr>containers :=
                       (containers (queue S))(prio := Fifo_Enqueue demon (containers (queue S) prio))\<rparr>,
                   history := history S @ [Enqueued prio demon]\<rparr>
        in Queue_ProcessIfUnfrozen C run n S
      else ok S)"

definition Queue_AfterFailure :: "client \<Rightarrow> runner \<Rightarrow> Solver \<Rightarrow> unit result" where
  "Queue_AfterFailure C run S =
     (let S = S\<lparr>queue := (queue S)\<lparr>containers := (\<lambda>i. Fifo_AfterFailure (containers (queue S) i))\<rparr>\<rparr> in
      seq (case clear_action (queue S) of
             Some a \<Rightarrow> seq (run (Action_Run C a S) S)
                         (\<lambda>S. ok (S\<lparr>queue := (queue S)\<lparr>clear_action := None\<rparr>\<rparr>))
           | None \<Rightarrow> ok S)
      (\<lambda>S. ok (S\<lparr>queue := (queue S)\<lparr>freeze_level := 0, in_process := False, in_add := False,
                                     to_add := []\<rparr>\<rparr>)))"

definition Queue_set_action_on_fail :: "addr option \<Rightarrow> Solver \<Rightarrow> Solver" where
  "Queue_set_action_on_fail a S = S\<lparr>queue := (queue S)\<lparr>clear_action := a\<rparr>\<rparr>"

definition Queue_clear_action_on_fail :: "Solver \<Rightarrow> Solver" where
  "Queue_clear_action_on_fail S = S\<lparr>queue := (queue S)\<lparr>clear_action := None\<rparr>\<rparr>"

text \<open>\<^verbatim>\<open>void Constraint::PostAndPropagate()\<close>\<close>

definition Constraint_PostAndPropagate :: "client \<Rightarrow> runner \<Rightarrow> nat \<Rightarrow> addr \<Rightarrow> Solver \<Rightarrow> unit result" where
  "Constraint_PostAndPropagate C run n c S =
     seq (ok (Queue_Freeze S))
     (\<lambda>S. seq (run (Constraint_Post C c S) S)
     (\<lambda>S. seq (run (Constraint_InitialPropagate C c S) S)
     (Queue_Unfreeze C run n)))"

text \<open>The loop of \<^verbatim>\<open>Queue::ProcessConstraints\<close>:
  \<^verbatim>\<open>for (int counter = 0; counter < to_add_.size(); ++counter)\<close>.\<close>

fun Queue_post_to_add :: "client \<Rightarrow> runner \<Rightarrow> nat \<Rightarrow> nat \<Rightarrow> Solver \<Rightarrow> unit result" where
  "Queue_post_to_add C run 0 counter S = (OutOfFuel, S)"
| "Queue_post_to_add C run (Suc n) counter S =
     (if counter < length (to_add (queue S)) then
        seq (Constraint_PostAndPropagate C run n (to_add (queue S) ! counter) S)
          (Queue_post_to_add C run n (Suc counter))
      else ok S)"

definition Queue_ProcessConstraints :: "client \<Rightarrow> runner \<Rightarrow> nat \<Rightarrow> Solver \<Rightarrow> unit result" where
  "Queue_ProcessConstraints C run n S =
     (if \<not> in_add (queue S) then
        seq (Queue_post_to_add C run n 0 (S\<lparr>queue := (queue S)\<lparr>in_add := True\<rparr>\<rparr>))
        (\<lambda>S. ok (S\<lparr>queue := (queue S)\<lparr>in_add := False, to_add := []\<rparr>\<rparr>))
      else ok S)"

definition Queue_AddConstraint :: "client \<Rightarrow> runner \<Rightarrow> nat \<Rightarrow> addr \<Rightarrow> Solver \<Rightarrow> unit result" where
  "Queue_AddConstraint C run n c S =
     Queue_ProcessConstraints C run n (S\<lparr>queue := (queue S)\<lparr>to_add := to_add (queue S) @ [c]\<rparr>\<rparr>)"

subsection \<open>The active search\<close>

text \<open>\<^verbatim>\<open>searches_.back()\<close>; the functions that use it abort on an empty
  \<^verbatim>\<open>searches_\<close>.\<close>

definition ActiveSearch :: "Solver \<Rightarrow> Search" where
  "ActiveSearch S = last (searches S)"

definition map_ActiveSearch :: "(Search \<Rightarrow> Search) \<Rightarrow> Solver \<Rightarrow> Solver" where
  "map_ActiveSearch f S = S\<lparr>searches := butlast (searches S) @ [f (last (searches S))]\<rparr>"

text \<open>The loops of \<^verbatim>\<open>class Search\<close> over \<^verbatim>\<open>monitors_\<close>.\<close>

definition Search_notify :: "client \<Rightarrow> runner \<Rightarrow> search_event \<Rightarrow> Solver \<Rightarrow> unit result" where
  "Search_notify C run e S =
     (if searches S = [] then (Abort, S)
      else run_each run (SearchMonitor_event C e) (monitors (ActiveSearch S)) S)"

definition Search_BeginFail :: "client \<Rightarrow> runner \<Rightarrow> Solver \<Rightarrow> unit result" where
  "Search_BeginFail C run S = Search_notify C run BeginFail S"

definition Search_EndFail :: "client \<Rightarrow> runner \<Rightarrow> Solver \<Rightarrow> unit result" where
  "Search_EndFail C run S = Search_notify C run EndFail S"

definition Search_BeginInitialPropagation :: "client \<Rightarrow> runner \<Rightarrow> Solver \<Rightarrow> unit result" where
  "Search_BeginInitialPropagation C run S = Search_notify C run BeginInitialPropagation S"

definition Search_EndInitialPropagation :: "client \<Rightarrow> runner \<Rightarrow> Solver \<Rightarrow> unit result" where
  "Search_EndInitialPropagation C run S = Search_notify C run EndInitialPropagation S"

definition Search_NoMoreSolutions :: "client \<Rightarrow> runner \<Rightarrow> Solver \<Rightarrow> unit result" where
  "Search_NoMoreSolutions C run S = Search_notify C run NoMoreSolutions S"

definition Search_RestartSearch :: "client \<Rightarrow> runner \<Rightarrow> Solver \<Rightarrow> unit result" where
  "Search_RestartSearch C run S = Search_notify C run RestartSearch S"

definition Search_ExitSearch :: "client \<Rightarrow> runner \<Rightarrow> Solver \<Rightarrow> unit result" where
  "Search_ExitSearch C run S = Search_notify C run ExitSearch S"

definition Search_EnterSearch :: "client \<Rightarrow> runner \<Rightarrow> Solver \<Rightarrow> unit result" where
  "Search_EnterSearch C run S =
     (if searches S = [] then (Abort, S)
      else Search_notify C run EnterSearch (map_ActiveSearch (\<lambda>s. s\<lparr>solution_counter := 0\<rparr>) S))"

text \<open>\<^verbatim>\<open>bool Search::AcceptSolution()\<close>: the loop, with \<^verbatim>\<open>valid\<close>.\<close>

fun AcceptSolution_loop :: "client \<Rightarrow> runner \<Rightarrow> addr list \<Rightarrow> bool \<Rightarrow> Solver \<Rightarrow> bool result" where
  "AcceptSolution_loop C run [] valid S = (Return valid, S)"
| "AcceptSolution_loop C run (m # ms) valid S =
     (case SearchMonitor_AcceptSolution C m S of
        (calls, accepted) \<Rightarrow>
          seq (run calls S)
            (AcceptSolution_loop C run ms (if \<not> accepted then False else valid)))"

definition Search_AcceptSolution :: "client \<Rightarrow> runner \<Rightarrow> Solver \<Rightarrow> bool result" where
  "Search_AcceptSolution C run S =
     (if searches S = [] then (Abort, S)
      else AcceptSolution_loop C run (monitors (ActiveSearch S)) True S)"

text \<open>\<^verbatim>\<open>bool Search::AtSolution()\<close>: the loop, with \<^verbatim>\<open>should_continue\<close>.\<close>

fun AtSolution_loop :: "client \<Rightarrow> runner \<Rightarrow> addr list \<Rightarrow> bool \<Rightarrow> Solver \<Rightarrow> bool result" where
  "AtSolution_loop C run [] should_continue S = (Return should_continue, S)"
| "AtSolution_loop C run (m # ms) should_continue S =
     (case SearchMonitor_AtSolution C m S of
        (calls, continue) \<Rightarrow>
          seq (run calls S)
            (AtSolution_loop C run ms (if continue then True else should_continue)))"

definition Search_AtSolution :: "client \<Rightarrow> runner \<Rightarrow> Solver \<Rightarrow> bool result" where
  "Search_AtSolution C run S =
     (if searches S = [] then (Abort, S)
      else AtSolution_loop C run (monitors (ActiveSearch S)) False S)"

subsection \<open>Failing\<close>

text \<open>\<^verbatim>\<open>void Solver::AddConstraint(Constraint* const c)\<close>\<close>

definition Solver_AddConstraint :: "client \<Rightarrow> runner \<Rightarrow> nat \<Rightarrow> addr \<Rightarrow> Solver \<Rightarrow> unit result" where
  "Solver_AddConstraint C run n c S =
     (if state S = IN_SEARCH then Queue_AddConstraint C run n c S
      else if state S = IN_ROOT_NODE then
        (if constraint_index S = int (length (constraints_list S)) then
           (if 0 \<le> additional_constraint_index S \<and>
               nat (additional_constraint_index S) < length (additional_constraints_parent_list S)
            then ok (S\<lparr>additional_constraints_list := additional_constraints_list S @ [c],
                       additional_constraints_parent_list := additional_constraints_parent_list S @
                         [additional_constraints_parent_list S ! nat (additional_constraint_index S)]\<rparr>)
            else (Abort, S))
         else ok (S\<lparr>additional_constraints_list := additional_constraints_list S @ [c],
                    additional_constraints_parent_list :=
                      additional_constraints_parent_list S @ [constraint_index S]\<rparr>))
      else ok (S\<lparr>constraints_list := constraints_list S @ [c]\<rparr>))"

text \<open>\<^verbatim>\<open>void Search::JumpBack()\<close>, of the active search.\<close>

definition Search_JumpBack :: "client \<Rightarrow> runner \<Rightarrow> nat \<Rightarrow> Solver \<Rightarrow> unit result" where
  "Search_JumpBack C run n S =
     (if searches S = [] then (Abort, S)
      else if jmpbuf_filled (ActiveSearch S) then
        (Failure, map_ActiveSearch (\<lambda>s. s\<lparr>jmpbuf_filled := False\<rparr>) S)
      else
        Solver_AddConstraint C run n (MakeFalseConstraint C S) S)"

text \<open>\<^verbatim>\<open>void Solver::Fail()\<close>\<close>

definition Solver_Fail :: "client \<Rightarrow> runner \<Rightarrow> nat \<Rightarrow> Solver \<Rightarrow> unit result" where
  "Solver_Fail C run n S =
     (case fail_intercept S of
        Some f \<Rightarrow> run (Closure_Run C f S) S
      | None \<Rightarrow>
          seq (Search_BeginFail C run (S\<lparr>fails := fails S + 1\<rparr>))
            (Search_JumpBack C run n))"

text \<open>\<^verbatim>\<open>void CheckFail()\<close> of the active search.\<close>

definition Search_CheckFail :: "client \<Rightarrow> runner \<Rightarrow> nat \<Rightarrow> Solver \<Rightarrow> unit result" where
  "Search_CheckFail C run n S =
     (if searches S = [] then (Abort, S)
      else if should_finish (ActiveSearch S) \<or> should_restart (ActiveSearch S) then Solver_Fail C run n S
      else ok S)"

text \<open>\<^verbatim>\<open>SearchMonitor::FinishCurrentSearch\<close> and \<^verbatim>\<open>SearchMonitor::RestartCurrentSearch\<close>\<close>

definition FinishCurrentSearch :: "Solver \<Rightarrow> unit result" where
  "FinishCurrentSearch S =
     (if searches S = [] then (Abort, S)
      else ok (map_ActiveSearch (\<lambda>s. s\<lparr>should_finish := True\<rparr>) S))"

definition RestartCurrentSearch :: "Solver \<Rightarrow> unit result" where
  "RestartCurrentSearch S =
     (if searches S = [] then (Abort, S)
      else ok (map_ActiveSearch (\<lambda>s. s\<lparr>should_restart := True\<rparr>) S))"

subsection \<open>Running client code\<close>

text \<open>One call of a client into the solver: \<^verbatim>\<open>Solver::Enqueue\<close>,
  \<^verbatim>\<open>Solver::FreezeQueue\<close>, \<^verbatim>\<open>Solver::UnfreezeQueue\<close>, \<^verbatim>\<open>Solver::Fail\<close>,
  \<^verbatim>\<open>Solver::AddConstraint\<close>, \<^verbatim>\<open>Solver::ProcessDemonsOnQueue\<close>, and the two
  requests of a monitor.\<close>

fun do_call :: "client \<Rightarrow> runner \<Rightarrow> nat \<Rightarrow> call \<Rightarrow> Solver \<Rightarrow> unit result" where
  "do_call C run n (CallEnqueue d) S = Queue_Enqueue C run n d S"
| "do_call C run n CallFreezeQueue S = ok (Queue_Freeze S)"
| "do_call C run n CallUnfreezeQueue S = Queue_Unfreeze C run n S"
| "do_call C run n CallFail S = Solver_Fail C run n S"
| "do_call C run n (CallAddConstraint c) S = Solver_AddConstraint C run n c S"
| "do_call C run n CallProcessDemonsOnQueue S = Queue_ProcessNormalDemons C run n S"
| "do_call C run n CallFinishCurrentSearch S = FinishCurrentSearch S"
| "do_call C run n CallRestartCurrentSearch S = RestartCurrentSearch S"

fun run_calls :: "(call \<Rightarrow> Solver \<Rightarrow> unit result) \<Rightarrow> call list \<Rightarrow> Solver \<Rightarrow> unit result" where
  "run_calls step [] S = ok S"
| "run_calls step (c # cs) S = seq (step c S) (run_calls step cs)"

text \<open>Client code run with a bound \<open>n\<close> on the depth of the calls between solver and
  clients and on the rounds of each loop.\<close>

primrec exec :: "client \<Rightarrow> nat \<Rightarrow> call list \<Rightarrow> Solver \<Rightarrow> unit result" where
  "exec C 0 = (\<lambda>calls S. (OutOfFuel, S))"
| "exec C (Suc n) = run_calls (do_call C (exec C n) n)"

subsection \<open>Markers\<close>

text \<open>\<^verbatim>\<open>enum SentinelMarker\<close>\<close>

definition INITIAL_SEARCH_SENTINEL :: int where "INITIAL_SEARCH_SENTINEL = 10000000"

definition ROOT_NODE_SENTINEL :: int where "ROOT_NODE_SENTINEL = 20000000"

definition SOLVER_CTOR_SENTINEL :: int where "SOLVER_CTOR_SENTINEL = 40000000"

text \<open>\<^verbatim>\<open>void Solver::PushState(Solver::MarkerType t, const StateInfo& info)\<close>\<close>

definition Solver_PushState :: "MarkerType \<Rightarrow> StateInfo \<Rightarrow> Solver \<Rightarrow> unit result" where
  "Solver_PushState t i S =
     (if searches S = [] then (Abort, S)
      else
        let m = StateMarker t i;
            m = (if t \<noteq> REVERSIBLE_ACTION \<or> int_info i = 0 then record_trail_sizes (trail S) m else m);
            S = map_ActiveSearch (\<lambda>s. s\<lparr>marker_stack := marker_stack s @ [m]\<rparr>) S
        in ok (Queue_increase_stamp S))"

text \<open>\<^verbatim>\<open>Solver::MarkerType Solver::PopState(StateInfo* info)\<close>; the result is the type of
  the marker and what is written to \<^verbatim>\<open>*info\<close>.\<close>

definition Solver_PopState :: "client \<Rightarrow> Solver \<Rightarrow> (MarkerType \<times> StateInfo) result" where
  "Solver_PopState C S =
     (if searches S = [] then (Abort, S)
      else if marker_stack (ActiveSearch S) = [] then (Abort, S)
      else
        let m = last (marker_stack (ActiveSearch S)) in
        case (if marker_type m \<noteq> REVERSIBLE_ACTION \<or> int_info (info m) = 0
              then BacktrackTo (RestoreBoolValue C) m (trail S, memory S)
              else Some (trail S, memory S)) of
          None \<Rightarrow> (Abort, S)
        | Some (T, M) \<Rightarrow>
            let S = S\<lparr>trail := T, memory := M\<rparr>;
                S = map_ActiveSearch (\<lambda>s. s\<lparr>marker_stack := butlast (marker_stack s)\<rparr>) S
            in (Return (marker_type m, info m), Queue_increase_stamp S))"



text \<open>\<^verbatim>\<open>void Solver::AddBacktrackAction(Action* a, bool fast)\<close>\<close>

definition Solver_AddBacktrackAction :: "addr option \<Rightarrow> bool \<Rightarrow> Solver \<Rightarrow> unit result" where
  "Solver_AddBacktrackAction a fast S =
     Solver_PushState REVERSIBLE_ACTION (StateInfo2 a (if fast then 1 else 0)) S"

text \<open>\<^verbatim>\<open>void Solver::PushSentinel(int magic_code)\<close>\<close>

definition Solver_PushSentinel :: "int \<Rightarrow> Solver \<Rightarrow> unit result" where
  "Solver_PushSentinel magic_code S =
     seq (Solver_PushState SENTINEL (StateInfo2 (Some (this S)) magic_code) S)
       (\<lambda>S. ok (if magic_code \<noteq> SOLVER_CTOR_SENTINEL
                 then map_ActiveSearch (\<lambda>s. s\<lparr>sentinel_pushed := sentinel_pushed s + 1\<rparr>) S
                 else S))"

text \<open>\<^verbatim>\<open>int Solver::SolveDepth() const\<close>\<close>

definition Solver_SolveDepth :: "Solver \<Rightarrow> int" where
  "Solver_SolveDepth S = (if state S = OUTSIDE_SEARCH then 0 else int (length (searches S)) - 1)"

text \<open>The loop of \<^verbatim>\<open>void Solver::BacktrackToSentinel(int magic_code)\<close>.\<close>

fun BacktrackToSentinel_loop :: "client \<Rightarrow> runner \<Rightarrow> nat \<Rightarrow> int \<Rightarrow> Solver \<Rightarrow> unit result" where
  "BacktrackToSentinel_loop C run 0 magic_code S = (OutOfFuel, S)"
| "BacktrackToSentinel_loop C run (Suc n) magic_code S =
     bind_result (Solver_PopState C S)
       (\<lambda>(t, i) S.
          case t of
            SENTINEL \<Rightarrow>
              if ptr_info i \<noteq> Some (this S) then (Abort, S)
              else
                let S = map_ActiveSearch (\<lambda>s. s\<lparr>sentinel_pushed := sentinel_pushed s - 1\<rparr>) S in
                if sentinel_pushed (ActiveSearch S) < 0 then (Abort, S)
                else
                  let S = map_ActiveSearch (\<lambda>s. s\<lparr>search_depth := 0, left_search_depth := 0\<rparr>) S in
                  if int_info i = magic_code then ok S
                  else BacktrackToSentinel_loop C run n magic_code S
          | SIMPLE_MARKER \<Rightarrow> BacktrackToSentinel_loop C run n magic_code S
          | CHOICE_POINT \<Rightarrow> BacktrackToSentinel_loop C run n magic_code S
          | REVERSIBLE_ACTION \<Rightarrow>
              (case ptr_info i of
                 None \<Rightarrow> (Abort, S)
               | Some d \<Rightarrow>
                   seq (run (Action_Run C d S) S) (BacktrackToSentinel_loop C run n magic_code)))"

definition Solver_BacktrackToSentinel :: "client \<Rightarrow> runner \<Rightarrow> nat \<Rightarrow> int \<Rightarrow> Solver \<Rightarrow> unit result" where
  "Solver_BacktrackToSentinel C run n magic_code S =
     (if searches S = [] then (Abort, S)
      else
        seq (if sentinel_pushed (ActiveSearch S) = 0 then ok S
             else BacktrackToSentinel_loop C run n magic_code S)
          (\<lambda>S. ok (S\<lparr>fail_stamp := fail_stamp S + 1\<rparr>)))"

text \<open>One change of the state of the solver made by the queue or by a failure outside a
  try region.\<close>

inductive prim :: "client \<Rightarrow> Solver \<Rightarrow> Solver \<Rightarrow> bool" for C :: client where
  prim_stamp: "prim C S (Queue_increase_stamp S)"
| prim_freeze: "prim C S (Queue_Freeze S)"
| prim_flags:
    "prim C S (S\<lparr>queue := (queue S)\<lparr>freeze_level := fl, in_process := ip, in_add := ia,
                                      to_add := ta, clear_action := ca\<rparr>\<rparr>)"
| prim_enqueue:
    "Demon_stamp S d < stamp (queue S) \<Longrightarrow>
     S1 = Demon_set_stamp d (stamp (queue S)) S \<Longrightarrow>
     prim C S (S1\<lparr>queue := (queue S1)\<lparr>containers :=
                       (containers (queue S1))(Demon_priority C d :=
                          Fifo_Enqueue d (containers (queue S1) (Demon_priority C d)))\<rparr>,
                  history := history S1 @ [Enqueued (Demon_priority C d) d]\<rparr>)"
| prim_dispatch:
    "Fifo_NextDemon (containers (queue S) prio) = (Some d, q) \<Longrightarrow>
     (prio = DELAYED_PRIORITY \<longrightarrow> pending S VAR_PRIORITY = [] \<and> pending S NORMAL_PRIORITY = []) \<Longrightarrow>
     (prio = VAR_PRIORITY \<longrightarrow> pending S NORMAL_PRIORITY = []) \<Longrightarrow>
     S1 = S\<lparr>queue := (queue S)\<lparr>containers := (containers (queue S))(prio := q)\<rparr>,
            history := history S @ [Dispatched prio d (pending S DELAYED_PRIORITY)
                                      (pending S VAR_PRIORITY) (pending S NORMAL_PRIORITY)]\<rparr> \<Longrightarrow>
     prim C S (Demon_set_stamp d (stamp (queue S1) - 1) S1)"
| prim_other:
    "queue S' = queue S \<Longrightarrow> memory S' = memory S \<Longrightarrow> history S' = history S \<Longrightarrow> prim C S S'"

abbreviation queue_steps :: "client \<Rightarrow> Solver \<Rightarrow> Solver \<Rightarrow> bool" where
  "queue_steps C \<equiv> (prim C)\<^sup>*\<^sup>*"

definition runs_in_steps :: "client \<Rightarrow> runner \<Rightarrow> bool" where
  "runs_in_steps C run \<longleftrightarrow> (\<forall>calls S. queue_steps C S (snd (run calls S)))"

subsection \<open>Reading the history\<close>

fun enqueued_of :: "DemonPriority \<Rightarrow> event list \<Rightarrow> addr list" where
  "enqueued_of p [] = []"
| "enqueued_of p (Enqueued q d # es) = (if q = p then d # enqueued_of p es else enqueued_of p es)"
| "enqueued_of p (e # es) = enqueued_of p es"

fun dispatched_of :: "DemonPriority \<Rightarrow> event list \<Rightarrow> addr list" where
  "dispatched_of p [] = []"
| "dispatched_of p (Dispatched q d dl vl nl # es) =
     (if q = p then d # dispatched_of p es else dispatched_of p es)"
| "dispatched_of p (e # es) = dispatched_of p es"

text \<open>A demon of priority \<^verbatim>\<open>DELAYED\<close> is taken when no demon of priority \<^verbatim>\<open>VAR\<close> or
  \<^verbatim>\<open>NORMAL\<close> is in its container, one of priority \<^verbatim>\<open>VAR\<close> when none of priority
  \<^verbatim>\<open>NORMAL\<close> is.\<close>

fun dispatch_in_order :: "event \<Rightarrow> bool" where
  "dispatch_in_order (Dispatched DELAYED_PRIORITY d dl vl nl) \<longleftrightarrow> vl = [] \<and> nl = []"
| "dispatch_in_order (Dispatched VAR_PRIORITY d dl vl nl) \<longleftrightarrow> nl = []"
| "dispatch_in_order e \<longleftrightarrow> True"






definition hist_rel :: "Solver \<Rightarrow> Solver \<Rightarrow> event list \<Rightarrow> bool" where
  "hist_rel S S' es \<longleftrightarrow>
     history S' = history S @ es \<and>
     stamp (queue S') = stamp (queue S) + of_nat (count_list es Stamped) \<and>
     list_all dispatch_in_order es \<and>
     (\<forall>p. pending S p @ enqueued_of p es = dispatched_of p es @ pending S' p)"


subsection \<open>A solver and clients to try the statements on\<close>

text \<open>
  \<^verbatim>\<open>Solver::Solver\<close> and \<^verbatim>\<open>Solver::Init\<close>, for the members above. The addresses of
  the solver, of the \<^verbatim>\<open>Trace\<close> object and of the fail decision, and the demon profiler
  that the \<^verbatim>\<open>extern\<close> function \<^verbatim>\<open>BuildDemonProfiler\<close> returns, are arguments.
  \<^verbatim>\<open>Init\<close> also calls \<^verbatim>\<open>InitCachedIntConstants\<close>, \<^verbatim>\<open>InitCachedConstraint\<close> and
  \<^verbatim>\<open>InitBuilders\<close>, which are defined elsewhere and are left out.
\<close>

definition Solver_new ::
  "cell_images \<Rightarrow> zlib \<Rightarrow> int \<Rightarrow> TrailCompression \<Rightarrow> bool \<Rightarrow> Memory \<Rightarrow> addr \<Rightarrow> addr \<Rightarrow> addr
     \<Rightarrow> addr option \<Rightarrow> unit result" where
  "Solver_new R Z trail_block_size compress_trail instruments M solver_addr trace_addr
      fail_decision_addr demon_profiler =
     Solver_PushSentinel SOLVER_CTOR_SENTINEL
       \<lparr>queue = Queue instruments,
        trail = Trail R Z trail_block_size compress_trail,
        memory = M,
        state = OUTSIDE_SEARCH,
        branches = 0, fails = 0, decisions = 0,
        demon_runs = (\<lambda>i. 0),
        searches = [Search_dummy, Search],
        fail_hooks = [],
        fail_stamp = 1,
        fail_intercept = None,
        fail_decision = fail_decision_addr,
        constraints_list = [],
        additional_constraints_list = [],
        additional_constraints_parent_list = [],
        constraint_index = 0,
        additional_constraint_index = 0,
        propagation_monitor = trace_addr,
        propagation_monitors = (case demon_profiler of None \<Rightarrow> [] | Some p \<Rightarrow> [p]),
        this = solver_addr,
        history = []\<rparr>"

text \<open>A solver with the default parameters but blocks of 4 cells, at address 100.\<close>

definition example_solver :: Solver where
  "example_solver =
     snd (Solver_new unary_images rev_zlib 4 NO_COMPRESSION False zero_memory 100 101 102 None)"

text \<open>Clients whose functions are those of the base classes: a demon has priority
  \<^verbatim>\<open>NORMAL\<close>, a monitor accepts every solution and does not ask to continue, and nothing
  else is done. The false constraint is at address 103.\<close>

definition default_client :: client where
  "default_client =
     \<lparr>Demon_priority = (\<lambda>d. NORMAL_PRIORITY),
      Demon_Run = (\<lambda>d S. []),
      Action_Run = (\<lambda>a S. []),
      Closure_Run = (\<lambda>f S. []),
      Constraint_Post = (\<lambda>c S. []),
      Constraint_InitialPropagate = (\<lambda>c S. if c = 103 then [CallFail] else []),
      SearchMonitor_event = (\<lambda>e m S. []),
      SearchMonitor_AcceptSolution = (\<lambda>m S. ([], True)),
      SearchMonitor_AtSolution = (\<lambda>m S. ([], False)),
      PropagationMonitor_event = (\<lambda>e m S. []),
      DecisionBuilder_Next = (\<lambda>db S. ([], None)),
      Decision_Apply = (\<lambda>d S. []),
      Decision_Refute = (\<lambda>d S. []),
      Selector_Run = (\<lambda>s S. NO_CHANGE),
      ReverseDecision = (\<lambda>d. d),
      MakeFalseConstraint = (\<lambda>S. 103),
      RestoreBoolValue = no_RestoreBoolValue,
      FLAGS_cp_no_solve = False\<rparr>"






text \<open>Every monitor is asked, in the order of the list, and the answers are collected:
  what the spec says of \<^verbatim>\<open>AcceptSolution\<close> and \<^verbatim>\<open>AtSolution\<close>.\<close>

fun ask_all ::
  "runner \<Rightarrow> (addr \<Rightarrow> Solver \<Rightarrow> call list \<times> bool) \<Rightarrow> addr list \<Rightarrow> Solver \<Rightarrow> bool list result" where
  "ask_all run f [] S = (Return [], S)"
| "ask_all run f (m # ms) S =
     (case f m S of
        (calls, answer) \<Rightarrow>
          bind_result (seq (run calls S) (ask_all run f ms))
            (\<lambda>answers S. (Return (answer # answers), S)))"

definition conjunction :: "bool list \<Rightarrow> bool" where
  "conjunction answers \<longleftrightarrow> False \<notin> set answers"

definition disjunction :: "bool list \<Rightarrow> bool" where
  "disjunction answers \<longleftrightarrow> True \<in> set answers"

text \<open>Three monitors; each enqueues the demon at its own address when it is asked, the
  second one rejects the solution and the third one asks to continue.\<close>

definition three_monitors_client :: client where
  "three_monitors_client =
     default_client\<lparr>SearchMonitor_AcceptSolution := (\<lambda>m S. ([CallEnqueue m], m \<noteq> 2)),
                    SearchMonitor_AtSolution := (\<lambda>m S. ([CallEnqueue m], m = 3))\<rparr>"

definition three_monitors_solver :: Solver where
  "three_monitors_solver =
     Queue_Freeze (map_ActiveSearch (\<lambda>s. s\<lparr>monitors := [1, 2, 3]\<rparr>) example_solver)"

text \<open>An action that enqueues the demon at its own address when it runs.\<close>

definition action_client :: client where
  "action_client = default_client\<lparr>Action_Run := (\<lambda>a S. [CallEnqueue a])\<rparr>"

text \<open>The queue is frozen, demons 1 and 2 are enqueued and action 9 is registered.\<close>

definition failing_example :: Solver where
  "failing_example =
     Queue_set_action_on_fail (Some 9)
       (snd (exec action_client 3 [CallFreezeQueue, CallEnqueue 1, CallEnqueue 2] example_solver))"

chapter \<open>Properties\<close>

section \<open>The compressed trail is a stack\<close>


















section \<open>Backtracking to a marker\<close>





lemma undo_cells_append:
  "undo_cells (xs @ ys) s = do { s' \<leftarrow> undo_cells xs s; undo_cells ys s' }"
  by (induction xs arbitrary: s) (auto split: bind_splits)









lemma append_no_cells [simp]: "append_cells A no_cells = A"
  by (simp add: append_cells_def no_cells_def)

lemma undo_all_no_cells [simp]: "undo_all no_cells M = Some M"
  by (simp add: undo_all_def no_cells_def)









lemma steps_seq:
  assumes "queue_steps C S (snd r)" and "\<And>S1. queue_steps C S1 (snd (f S1))"
  shows "queue_steps C S (snd (seq r f))"
proof (cases r)
  case (Pair out S1)
  with assms(1) have "queue_steps C S S1" by simp
  moreover have "queue_steps C S1 (snd (f S1))" by (rule assms(2))
  ultimately show ?thesis
    using Pair by (cases out) (auto simp: seq_def bind_result_def)
qed

lemma steps_seq':
  assumes "queue_steps C S (snd r)" and "\<And>S1. fst r = Return () \<Longrightarrow> snd r = S1 \<Longrightarrow> queue_steps C S1 (snd (f S1))"
  shows "queue_steps C S (snd (seq r f))"
proof (cases r)
  case (Pair out S1)
  with assms(1) have s: "queue_steps C S S1" by simp
  show ?thesis
  proof (cases out)
    case (Return u)
    with Pair assms(2)[of S1] have "queue_steps C S1 (snd (f S1))" by simp
    with s Pair Return show ?thesis by (auto simp: seq_def bind_result_def)
  qed (use s Pair in \<open>auto simp: seq_def bind_result_def\<close>)
qed

lemma steps_ok [simp]: "queue_steps C S (snd (ok S'))  \<longleftrightarrow> queue_steps C S S'"
  by (simp add: ok_def)

lemma steps_then:
  assumes "prim C S S1" and "queue_steps C S1 S2"
  shows "queue_steps C S S2"
  using assms by (rule converse_rtranclp_into_rtranclp)

lemma run_each_steps:
  assumes "runs_in_steps C run"
  shows "queue_steps C S (snd (run_each run f ms S))"
proof (induction ms arbitrary: S)
  case Nil
  show ?case by simp
next
  case (Cons m ms)
  show ?case
    using assms Cons by (auto intro!: steps_seq simp: runs_in_steps_def)
qed

lemma Trace_event_steps:
  "runs_in_steps C run \<Longrightarrow> queue_steps C S (snd (Trace_event C run e S))"
  by (simp add: Trace_event_def run_each_steps)

lemma Search_notify_steps:
  "runs_in_steps C run \<Longrightarrow> queue_steps C S (snd (Search_notify C run e S))"
  by (simp add: Search_notify_def run_each_steps)

lemma Queue_ProcessOneDemon_steps:
  assumes "runs_in_steps C run"
    and "prio = DELAYED_PRIORITY \<longrightarrow> pending S VAR_PRIORITY = [] \<and> pending S NORMAL_PRIORITY = []"
    and "prio = VAR_PRIORITY \<longrightarrow> pending S NORMAL_PRIORITY = []"
  shows "queue_steps C S (snd (Queue_ProcessOneDemon C run prio S))"
proof (cases "Fifo_NextDemon (containers (queue S) prio)")
  case (Pair od q)
  show ?thesis
  proof (cases od)
    case None
    with Pair show ?thesis by (simp add: Queue_ProcessOneDemon_def)
  next
    case (Some d)
    define S1 where "S1 = S\<lparr>queue := (queue S)\<lparr>containers := (containers (queue S))(prio := q)\<rparr>,
            history := history S @ [Dispatched prio d (pending S DELAYED_PRIORITY)
                                      (pending S VAR_PRIORITY) (pending S NORMAL_PRIORITY)]\<rparr>"
    define S2 where "S2 = Demon_set_stamp d (stamp (queue S1) - 1) S1"
    have p: "prim C S S2"
      unfolding S2_def
      by (rule prim_dispatch[OF _ assms(2,3) S1_def]) (use Pair Some in simp)
    have rest: "queue_steps C S2 (snd (
          seq (if instruments_demons (queue S2) then Trace_event C run (BeginDemonRun d) S2 else ok S2)
          (\<lambda>S. let S = S\<lparr>demon_runs := (demon_runs S)(prio := demon_runs S prio + 1)\<rparr> in
          seq (run (Demon_Run C d S) S)
          (\<lambda>S. if instruments_demons (queue S) then Trace_event C run (EndDemonRun d) S else ok S))))"
    proof (rule steps_seq, goal_cases)
      case 1
      show ?case using assms(1) by (simp add: Trace_event_steps)
    next
      case (2 S3)
      have "prim C S3 (S3\<lparr>demon_runs := (demon_runs S3)(prio := demon_runs S3 prio + 1)\<rparr>)"
        by (rule prim_other) simp_all
      moreover have "queue_steps C S4 (snd (seq (run (Demon_Run C d S4) S4)
          (\<lambda>S. if instruments_demons (queue S) then Trace_event C run (EndDemonRun d) S else ok S)))" for S4
        using assms(1) by (auto intro!: steps_seq simp: Trace_event_steps runs_in_steps_def)
      ultimately show ?case
        by (auto simp: Let_def intro: steps_then)
    qed
    have "Queue_ProcessOneDemon C run prio S =
          seq (if instruments_demons (queue S2) then Trace_event C run (BeginDemonRun d) S2 else ok S2)
          (\<lambda>S. let S = S\<lparr>demon_runs := (demon_runs S)(prio := demon_runs S prio + 1)\<rparr> in
          seq (run (Demon_Run C d S) S)
          (\<lambda>S. if instruments_demons (queue S) then Trace_event C run (EndDemonRun d) S else ok S))"
      using Pair Some by (simp add: Queue_ProcessOneDemon_def S2_def S1_def Let_def)
    with p rest show ?thesis by (auto intro: steps_then)
  qed
qed

lemma Queue_ProcessNormalDemons_post:
  "Queue_ProcessNormalDemons C run n S = (Return u, S') \<Longrightarrow> pending S' NORMAL_PRIORITY = []"
proof (induction n arbitrary: S)
  case 0
  then show ?case by simp
next
  case (Suc n)
  show ?case
  proof (cases "Fifo_Empty (containers (queue S) NORMAL_PRIORITY)")
    case True
    with Suc.prems show ?thesis by (simp add: ok_def Fifo_Empty_def pending_def)
  next
    case False
    with Suc.prems obtain S1 where
      "Queue_ProcessNormalDemons C run n S1 = (Return u, S')"
      by (auto simp: seq_def bind_result_def split: prod.splits outcome.splits)
    then show ?thesis by (rule Suc.IH)
  qed
qed

lemma Process_var_normal_post:
  "Process_var_normal C run n S = (Return u, S') \<Longrightarrow>
     pending S' NORMAL_PRIORITY = [] \<and> pending S' VAR_PRIORITY = []"
proof (induction n arbitrary: S)
  case 0
  then show ?case by simp
next
  case (Suc n)
  show ?case
  proof (cases "\<not> Fifo_Empty (containers (queue S) VAR_PRIORITY) \<or>
         \<not> Fifo_Empty (containers (queue S) NORMAL_PRIORITY)")
    case False
    with Suc.prems show ?thesis by (simp add: ok_def Fifo_Empty_def pending_def)
  next
    case True
    with Suc.prems obtain S1 where
      "Process_var_normal C run n S1 = (Return u, S')"
      by (auto simp: seq_def bind_result_def split: prod.splits outcome.splits)
    then show ?thesis by (rule Suc.IH)
  qed
qed

lemma Queue_ProcessNormalDemons_steps:
  assumes "runs_in_steps C run"
  shows "queue_steps C S (snd (Queue_ProcessNormalDemons C run n S))"
proof (induction n arbitrary: S)
  case 0
  show ?case by simp
next
  case (Suc n)
  show ?case
    using Suc assms by (auto intro!: steps_seq Queue_ProcessOneDemon_steps)
qed

lemma Process_var_normal_steps:
  assumes "runs_in_steps C run"
  shows "queue_steps C S (snd (Process_var_normal C run n S))"
proof (induction n arbitrary: S)
  case 0
  show ?case by simp
next
  case (Suc n)
  have "queue_steps C S (snd (seq (Queue_ProcessNormalDemons C run n S)
        (\<lambda>S. seq (Queue_ProcessOneDemon C run VAR_PRIORITY S) (Process_var_normal C run n))))"
  proof (rule steps_seq', goal_cases)
    case 1
    show ?case by (rule Queue_ProcessNormalDemons_steps[OF assms])
  next
    case (2 S1)
    then have "pending S1 NORMAL_PRIORITY = []"
      using Queue_ProcessNormalDemons_post[of C run n S "()" S1] by (simp add: prod_eq_iff)
    then show ?case
      using assms Suc by (auto intro!: steps_seq Queue_ProcessOneDemon_steps)
  qed
  then show ?case by simp
qed

lemma Process_all_steps:
  assumes "runs_in_steps C run"
  shows "queue_steps C S (snd (Process_all C run n S))"
proof (induction n arbitrary: S)
  case 0
  show ?case by simp
next
  case (Suc n)
  have "queue_steps C S (snd (seq (Process_var_normal C run n S)
        (\<lambda>S. seq (Queue_ProcessOneDemon C run DELAYED_PRIORITY S) (Process_all C run n))))"
  proof (rule steps_seq', goal_cases)
    case 1
    show ?case by (rule Process_var_normal_steps[OF assms])
  next
    case (2 S1)
    then have "pending S1 NORMAL_PRIORITY = [] \<and> pending S1 VAR_PRIORITY = []"
      using Process_var_normal_post[of C run n S "()" S1] by (simp add: prod_eq_iff)
    then show ?case
      using assms Suc by (auto intro!: steps_seq Queue_ProcessOneDemon_steps)
  qed
  then show ?case by simp
qed

lemma prim_flags':
  assumes "containers q' = containers (queue S)" and "stamp q' = stamp (queue S)"
    and "instruments_demons q' = instruments_demons (queue S)"
  shows "prim C S (S\<lparr>queue := q'\<rparr>)"
proof -
  have "q' = (queue S)\<lparr>freeze_level := freeze_level q', in_process := in_process q',
                        in_add := in_add q', to_add := to_add q', clear_action := clear_action q'\<rparr>"
    using assms by simp
  then have "S\<lparr>queue := q'\<rparr> = S\<lparr>queue := (queue S)\<lparr>freeze_level := freeze_level q', in_process := in_process q',
                        in_add := in_add q', to_add := to_add q', clear_action := clear_action q'\<rparr>\<rparr>"
    by simp
  then show ?thesis
    using prim_flags[where C=C and S=S and fl="freeze_level q'" and ip="in_process q'"
        and ia="in_add q'" and ta="to_add q'" and ca="clear_action q'"]
    by simp
qed

lemma Queue_Process_steps:
  assumes "runs_in_steps C run"
  shows "queue_steps C S (snd (Queue_Process C run n S))"
proof (cases "in_process (queue S)")
  case True
  then show ?thesis by (simp add: Queue_Process_def)
next
  case False
  have p: "prim C S (S\<lparr>queue := (queue S)\<lparr>in_process := True\<rparr>\<rparr>)"
    by (rule prim_flags') simp_all
  have q: "queue_steps C S1 (S1\<lparr>queue := (queue S1)\<lparr>in_process := False\<rparr>\<rparr>)" for S1
    by (rule r_into_rtranclp, rule prim_flags') simp_all
  have "queue_steps C (S\<lparr>queue := (queue S)\<lparr>in_process := True\<rparr>\<rparr>)
          (snd (seq (Process_all C run n (S\<lparr>queue := (queue S)\<lparr>in_process := True\<rparr>\<rparr>))
             (\<lambda>S. ok (S\<lparr>queue := (queue S)\<lparr>in_process := False\<rparr>\<rparr>))))"
    by (rule steps_seq) (simp_all add: Process_all_steps[OF assms] q)
  with p False show ?thesis
    by (auto simp: Queue_Process_def intro: steps_then)
qed

lemma Queue_ProcessIfUnfrozen_steps:
  "runs_in_steps C run \<Longrightarrow> queue_steps C S (snd (Queue_ProcessIfUnfrozen C run n S))"
  by (simp add: Queue_ProcessIfUnfrozen_def Queue_Process_steps)

lemma Queue_Unfreeze_steps:
  assumes "runs_in_steps C run"
  shows "queue_steps C S (snd (Queue_Unfreeze C run n S))"
proof -
  have "prim C S (S\<lparr>queue := (queue S)\<lparr>freeze_level := freeze_level (queue S) - 1\<rparr>\<rparr>)"
    by (rule prim_flags') simp_all
  then show ?thesis
    unfolding Queue_Unfreeze_def
    by (rule steps_then) (rule Queue_ProcessIfUnfrozen_steps[OF assms])
qed

lemma Queue_Enqueue_steps:
  assumes "runs_in_steps C run"
  shows "queue_steps C S (snd (Queue_Enqueue C run n d S))"
proof (cases "Demon_stamp S d < stamp (queue S)")
  case False
  then show ?thesis by (simp add: Queue_Enqueue_def)
next
  case True
  define S1 where "S1 = Demon_set_stamp d (stamp (queue S)) S"
  define S2 where "S2 = S1\<lparr>queue := (queue S1)\<lparr>containers :=
                       (containers (queue S1))(Demon_priority C d :=
                          Fifo_Enqueue d (containers (queue S1) (Demon_priority C d)))\<rparr>,
                  history := history S1 @ [Enqueued (Demon_priority C d) d]\<rparr>"
  have "prim C S S2"
    unfolding S2_def by (rule prim_enqueue[OF True S1_def])
  moreover have "Queue_Enqueue C run n d S = Queue_ProcessIfUnfrozen C run n S2"
    using True by (simp add: Queue_Enqueue_def S2_def S1_def Let_def)
  ultimately show ?thesis
    by (auto intro: steps_then Queue_ProcessIfUnfrozen_steps[OF assms])
qed

lemma Queue_Freeze_steps: "queue_steps C S (Queue_Freeze S)"
  by (rule r_into_rtranclp) (rule prim_freeze)

lemma Constraint_PostAndPropagate_steps:
  assumes "runs_in_steps C run"
  shows "queue_steps C S (snd (Constraint_PostAndPropagate C run n c S))"
  unfolding Constraint_PostAndPropagate_def
  using assms
  by (auto intro!: steps_seq Queue_Unfreeze_steps simp: Queue_Freeze_steps runs_in_steps_def)

lemma Queue_post_to_add_steps:
  assumes "runs_in_steps C run"
  shows "queue_steps C S (snd (Queue_post_to_add C run n counter S))"
proof (induction n arbitrary: S counter)
  case 0
  show ?case by simp
next
  case (Suc n)
  show ?case
    using Suc assms by (auto intro!: steps_seq Constraint_PostAndPropagate_steps)
qed

lemma Queue_ProcessConstraints_steps:
  assumes "runs_in_steps C run"
  shows "queue_steps C S (snd (Queue_ProcessConstraints C run n S))"
proof (cases "in_add (queue S)")
  case True
  then show ?thesis by (simp add: Queue_ProcessConstraints_def)
next
  case False
  have p: "prim C S (S\<lparr>queue := (queue S)\<lparr>in_add := True\<rparr>\<rparr>)"
    by (rule prim_flags') simp_all
  have q: "queue_steps C S1 (S1\<lparr>queue := (queue S1)\<lparr>in_add := False, to_add := []\<rparr>\<rparr>)" for S1
    by (rule r_into_rtranclp, rule prim_flags') simp_all
  have "queue_steps C (S\<lparr>queue := (queue S)\<lparr>in_add := True\<rparr>\<rparr>)
          (snd (seq (Queue_post_to_add C run n 0 (S\<lparr>queue := (queue S)\<lparr>in_add := True\<rparr>\<rparr>))
             (\<lambda>S. ok (S\<lparr>queue := (queue S)\<lparr>in_add := False, to_add := []\<rparr>\<rparr>))))"
    by (rule steps_seq) (simp_all add: Queue_post_to_add_steps[OF assms] q)
  with p False show ?thesis
    by (auto simp: Queue_ProcessConstraints_def intro: steps_then)
qed

lemma Queue_AddConstraint_steps:
  assumes "runs_in_steps C run"
  shows "queue_steps C S (snd (Queue_AddConstraint C run n c S))"
proof -
  have "prim C S (S\<lparr>queue := (queue S)\<lparr>to_add := to_add (queue S) @ [c]\<rparr>\<rparr>)"
    by (rule prim_flags') simp_all
  then show ?thesis
    unfolding Queue_AddConstraint_def
    by (rule steps_then) (rule Queue_ProcessConstraints_steps[OF assms])
qed

lemma prim_other_steps:
  "queue S' = queue S \<Longrightarrow> memory S' = memory S \<Longrightarrow> history S' = history S \<Longrightarrow> queue_steps C S S'"
  by (rule r_into_rtranclp) (rule prim_other)

lemma Solver_AddConstraint_steps:
  assumes "runs_in_steps C run"
  shows "queue_steps C S (snd (Solver_AddConstraint C run n c S))"
  unfolding Solver_AddConstraint_def
  using assms by (auto simp: Queue_AddConstraint_steps intro!: prim_other_steps)

lemma Search_JumpBack_steps:
  assumes "runs_in_steps C run"
  shows "queue_steps C S (snd (Search_JumpBack C run n S))"
  unfolding Search_JumpBack_def
  using assms
  by (auto simp: Solver_AddConstraint_steps map_ActiveSearch_def intro!: prim_other_steps)

lemma Solver_Fail_steps:
  assumes "runs_in_steps C run"
  shows "queue_steps C S (snd (Solver_Fail C run n S))"
proof (cases "fail_intercept S")
  case (Some f)
  with assms show ?thesis by (simp add: Solver_Fail_def runs_in_steps_def)
next
  case None
  have "prim C S (S\<lparr>fails := fails S + 1\<rparr>)"
    by (rule prim_other) simp_all
  moreover have "queue_steps C (S\<lparr>fails := fails S + 1\<rparr>)
      (snd (seq (Search_BeginFail C run (S\<lparr>fails := fails S + 1\<rparr>)) (Search_JumpBack C run n)))"
    using assms
    by (auto intro!: steps_seq simp: Search_BeginFail_def Search_notify_steps Search_JumpBack_steps)
  ultimately show ?thesis
    using None by (auto simp: Solver_Fail_def intro: steps_then)
qed

lemma do_call_steps:
  assumes "runs_in_steps C run"
  shows "queue_steps C S (snd (do_call C run n c S))"
  using assms
  by (cases c)
     (auto simp: Queue_Enqueue_steps Queue_Freeze_steps Queue_Unfreeze_steps Solver_Fail_steps
        Solver_AddConstraint_steps Queue_ProcessNormalDemons_steps
        FinishCurrentSearch_def RestartCurrentSearch_def map_ActiveSearch_def
        intro!: prim_other_steps)

lemma run_calls_steps:
  assumes "\<And>c S. queue_steps C S (snd (step c S))"
  shows "queue_steps C S (snd (run_calls step cs S))"
  by (induction cs arbitrary: S) (auto intro!: steps_seq assms)

lemma exec_steps: "runs_in_steps C (exec C n)"
proof (induction n)
  case 0
  show ?case by (simp add: runs_in_steps_def)
next
  case (Suc n)
  show ?case
    unfolding runs_in_steps_def
    by (auto intro!: run_calls_steps do_call_steps[OF Suc])
qed

lemma enqueued_of_append [simp]: "enqueued_of p (es @ fs) = enqueued_of p es @ enqueued_of p fs"
  by (induction p es rule: enqueued_of.induct) simp_all

lemma dispatched_of_append [simp]: "dispatched_of p (es @ fs) = dispatched_of p es @ dispatched_of p fs"
  by (induction p es rule: dispatched_of.induct) simp_all

lemma count_list_append' : "count_list (es @ fs) x = count_list es x + count_list fs x"
  by (induction es) simp_all

lemma hist_rel_refl: "hist_rel S S []"
  by (simp add: hist_rel_def)

lemma hist_rel_trans:
  assumes "hist_rel S S1 es" and "hist_rel S1 S2 fs"
  shows "hist_rel S S2 (es @ fs)"
proof -
  have "pending S p @ enqueued_of p (es @ fs) = dispatched_of p (es @ fs) @ pending S2 p" for p
  proof -
    have "pending S p @ enqueued_of p es @ enqueued_of p fs
          = (dispatched_of p es @ pending S1 p) @ enqueued_of p fs"
      using assms(1) by (simp add: hist_rel_def)
    also have "\<dots> = dispatched_of p es @ dispatched_of p fs @ pending S2 p"
      using assms(2) by (simp add: hist_rel_def)
    finally show ?thesis by simp
  qed
  with assms show ?thesis
    by (simp add: hist_rel_def count_list_append')
qed

lemma pending_Demon_set_stamp [simp]: "pending (Demon_set_stamp d v S) p = pending S p"
  by (simp add: pending_def Demon_set_stamp_def)

lemma prim_hist_rel:
  assumes "prim C S S'"
  shows "\<exists>es. hist_rel S S' es"
  using assms
proof cases
  case prim_stamp
  then have "hist_rel S S' [Stamped]"
    by (simp add: hist_rel_def Queue_increase_stamp_def pending_def)
  then show ?thesis ..
next
  case prim_freeze
  then have "hist_rel S S' [Stamped]"
    by (simp add: hist_rel_def Queue_Freeze_def pending_def)
  then show ?thesis ..
next
  case (prim_flags fl ip ia ta ca)
  then have "hist_rel S S' []"
    by (simp add: hist_rel_def pending_def)
  then show ?thesis ..
next
  case (prim_enqueue d S1)
  have "first_to_last (Fifo_Enqueue d q) = first_to_last q @ [d]" for q
    by (simp add: Fifo_Enqueue_def split: list.splits)
  with prim_enqueue have "hist_rel S S' [Enqueued (Demon_priority C d) d]"
    by (simp add: hist_rel_def pending_def Demon_set_stamp_def)
  then show ?thesis ..
next
  case (prim_dispatch prio d q S1)
  from prim_dispatch(2) have "first_to_last (containers (queue S) prio) = d # first_to_last q"
    by (auto simp: Fifo_NextDemon_def split: list.splits)
  with prim_dispatch have "hist_rel S S' [Dispatched prio d (pending S DELAYED_PRIORITY)
                                      (pending S VAR_PRIORITY) (pending S NORMAL_PRIORITY)]"
    by (cases prio) (auto simp: hist_rel_def pending_def Demon_set_stamp_def)
  then show ?thesis ..
next
  case prim_other
  then have "hist_rel S S' []"
    by (simp add: hist_rel_def pending_def)
  then show ?thesis ..
qed

lemma steps_hist_rel:
  assumes "queue_steps C S S'"
  shows "\<exists>es. hist_rel S S' es"
  using assms
proof (induction rule: rtranclp_induct)
  case base
  show ?case using hist_rel_refl by blast
next
  case (step S1 S2)
  then obtain es fs where "hist_rel S S1 es" "hist_rel S1 S2 fs"
    using prim_hist_rel by blast
  then show ?case using hist_rel_trans by blast
qed





text \<open>
  Claim C3. In any run of \<^verbatim>\<open>Queue::Process\<close>, with any client code, also one that is
  cut off or ends in a failure: every demon taken from the container of priority
  \<^verbatim>\<open>DELAYED\<close> is taken when the containers of priority \<^verbatim>\<open>VAR\<close> and \<^verbatim>\<open>NORMAL\<close>
  are empty, and every demon taken from the container of priority \<^verbatim>\<open>VAR\<close> when that of
  priority \<^verbatim>\<open>NORMAL\<close> is empty; and for each priority the demons dispatched during the
  run are, in this order, the first of the demons that were pending at the start
  followed by the demons enqueued during the run, the others being those still pending.
\<close>

theorem Process_priority_and_fifo:
  "\<exists>es. history (snd (Queue_Process C (exec C m) n S)) = history S @ es \<and>
        list_all dispatch_in_order es \<and>
        (\<forall>p. pending S p @ enqueued_of p es =
             dispatched_of p es @ pending (snd (Queue_Process C (exec C m) n S)) p)"
proof -
  have "queue_steps C S (snd (Queue_Process C (exec C m) n S))"
    by (rule Queue_Process_steps) (rule exec_steps)
  then obtain es where "hist_rel S (snd (Queue_Process C (exec C m) n S)) es"
    using steps_hist_rel by blast
  then show ?thesis
    unfolding hist_rel_def by blast
qed





lemma AcceptSolution_loop_ask_all:
  "AcceptSolution_loop C run ms valid S =
     bind_result (ask_all run (SearchMonitor_AcceptSolution C) ms S)
       (\<lambda>answers S'. (Return (valid \<and> conjunction answers), S'))"
proof (induction ms arbitrary: valid S)
  case Nil
  show ?case by (simp add: bind_result_def conjunction_def)
next
  case (Cons m ms)
  obtain calls answer where f: "SearchMonitor_AcceptSolution C m S = (calls, answer)"
    by (cases "SearchMonitor_AcceptSolution C m S")
  obtain out S1 where r: "run calls S = (out, S1)" by (cases "run calls S")
  show ?case
  proof (cases out)
    case (Return u)
    obtain out2 S2 where a: "ask_all run (SearchMonitor_AcceptSolution C) ms S1 = (out2, S2)"
      by (cases "ask_all run (SearchMonitor_AcceptSolution C) ms S1")
    show ?thesis
      using f r Return a Cons.IH[of "if \<not> answer then False else valid" S1]
      by (cases out2) (auto simp: seq_def bind_result_def conjunction_def)
  qed (use f r in \<open>simp_all add: seq_def bind_result_def\<close>)
qed

lemma AtSolution_loop_ask_all:
  "AtSolution_loop C run ms should_continue S =
     bind_result (ask_all run (SearchMonitor_AtSolution C) ms S)
       (\<lambda>answers S'. (Return (should_continue \<or> disjunction answers), S'))"
proof (induction ms arbitrary: should_continue S)
  case Nil
  show ?case by (simp add: bind_result_def disjunction_def)
next
  case (Cons m ms)
  obtain calls answer where f: "SearchMonitor_AtSolution C m S = (calls, answer)"
    by (cases "SearchMonitor_AtSolution C m S")
  obtain out S1 where r: "run calls S = (out, S1)" by (cases "run calls S")
  show ?case
  proof (cases out)
    case (Return u)
    obtain out2 S2 where a: "ask_all run (SearchMonitor_AtSolution C) ms S1 = (out2, S2)"
      by (cases "ask_all run (SearchMonitor_AtSolution C) ms S1")
    show ?thesis
      using f r Return a Cons.IH[of "if answer then True else should_continue" S1]
      by (cases out2) (auto simp: seq_def bind_result_def disjunction_def)
  qed (use f r in \<open>simp_all add: seq_def bind_result_def\<close>)
qed

lemma ask_all_length:
  "ask_all run f ms S = (Return answers, S') \<Longrightarrow> length answers = length ms"
proof (induction ms arbitrary: S answers)
  case Nil
  then show ?case by simp
next
  case (Cons m ms)
  then show ?case
    by (auto simp: seq_def bind_result_def split: prod.splits outcome.splits)
qed

text \<open>
  Claim C8. \<^verbatim>\<open>Search::AcceptSolution\<close> asks every monitor of the search, in the order
  of registration, whatever the earlier ones have answered, and returns the conjunction
  of the answers; \<^verbatim>\<open>Search::AtSolution\<close> asks every monitor likewise and returns the
  disjunction. (A monitor that fails while it is asked ends the loop, as any failure
  does: then nothing is returned.)
\<close>

theorem monitors_all_asked:
  "(searches S \<noteq> [] \<longrightarrow>
      Search_AcceptSolution C run S =
        bind_result (ask_all run (SearchMonitor_AcceptSolution C) (monitors (ActiveSearch S)) S)
          (\<lambda>answers S'. (Return (conjunction answers), S')) \<and>
      Search_AtSolution C run S =
        bind_result (ask_all run (SearchMonitor_AtSolution C) (monitors (ActiveSearch S)) S)
          (\<lambda>answers S'. (Return (disjunction answers), S'))) \<and>
   (ask_all run f ms S = (Return answers, S') \<longrightarrow> length answers = length ms)"
  by (simp add: Search_AcceptSolution_def Search_AtSolution_def AcceptSolution_loop_ask_all
        AtSolution_loop_ask_all ask_all_length)

theorem monitors_all_asked_witness:
  "searches three_monitors_solver \<noteq> [] \<and>
   fst (ask_all (exec three_monitors_client 3) (SearchMonitor_AcceptSolution three_monitors_client)
     (monitors (ActiveSearch three_monitors_solver)) three_monitors_solver)
     = Return [True, False, True] \<and>
   length [True, False, True] = length (monitors (ActiveSearch three_monitors_solver)) \<and>
   fst (Search_AcceptSolution three_monitors_client (exec three_monitors_client 3) three_monitors_solver)
     = Return False \<and>
   pending (snd (Search_AcceptSolution three_monitors_client (exec three_monitors_client 3)
                   three_monitors_solver)) NORMAL_PRIORITY = [1, 2, 3] \<and>
   fst (Search_AtSolution three_monitors_client (exec three_monitors_client 3) three_monitors_solver)
     = Return True"
proof -
  let ?run = "exec three_monitors_client 3"
  let ?ms = "monitors (ActiveSearch three_monitors_solver)"
  let ?a = "ask_all ?run (SearchMonitor_AcceptSolution three_monitors_client) ?ms three_monitors_solver"
  let ?b = "ask_all ?run (SearchMonitor_AtSolution three_monitors_client) ?ms three_monitors_solver"
  have h: "searches three_monitors_solver \<noteq> []" by code_simp
  have a: "fst ?a = Return [True, False, True]" by code_simp
  have b: "fst ?b = Return [False, False, True]" by code_simp
  have p: "pending (snd ?a) NORMAL_PRIORITY = [1, 2, 3]" by code_simp
  have a': "?a = (Return [True, False, True], snd ?a)" using a by (cases ?a) simp
  have b': "?b = (Return [False, False, True], snd ?b)" using b by (cases ?b) simp
  from monitors_all_asked [where S=three_monitors_solver and C=three_monitors_client
        and run="?run" and f="SearchMonitor_AcceptSolution three_monitors_client"
        and ms="?ms" and answers="[True, False, True]" and S'="snd ?a"] h a'
  have t: "Search_AcceptSolution three_monitors_client ?run three_monitors_solver =
             bind_result ?a (\<lambda>answers S'. (Return (conjunction answers), S'))"
     and u: "Search_AtSolution three_monitors_client ?run three_monitors_solver =
             bind_result ?b (\<lambda>answers S'. (Return (disjunction answers), S'))"
     and l: "length [True, False, True] = length ?ms"
    by blast+
  have t': "Search_AcceptSolution three_monitors_client ?run three_monitors_solver = (Return False, snd ?a)"
    unfolding t by (subst a') (simp add: bind_result_def conjunction_def)
  have u': "Search_AtSolution three_monitors_client ?run three_monitors_solver = (Return True, snd ?b)"
    unfolding u by (subst b') (simp add: bind_result_def disjunction_def)
  show ?thesis
    using h a l p unfolding t' u' by simp
qed

lemma Fifo_AfterFailure_simps:
  "first_to_last (Fifo_AfterFailure q) = []"
  "free_cells (Fifo_AfterFailure q) = first_to_last q @ free_cells q"
  by (simp_all add: Fifo_AfterFailure_def)

text \<open>
  Claim C5. \<^verbatim>\<open>Queue::AfterFailure\<close> first moves the cells of every priority queue to
  its free list, so that no demon is pending when the registered action runs; the action
  runs once, in that state, and if it returns the action is unregistered, the list of
  constraints to add is cleared and the freeze level and the two flags are reset. With no
  action registered, and so on a second failure, nothing of the client is run: the call
  returns whatever the runner does.
\<close>

theorem AfterFailure_resets_queue:
  "(clear_action (queue S) = None \<longrightarrow>
      fst (Queue_AfterFailure C run S) = Return () \<and>
      history (snd (Queue_AfterFailure C run S)) = history S \<and>
      (\<forall>p. pending (snd (Queue_AfterFailure C run S)) p = [] \<and>
           free_cells (containers (queue (snd (Queue_AfterFailure C run S))) p) =
             pending S p @ free_cells (containers (queue S) p))) \<and>
   (clear_action (queue S) = Some a \<longrightarrow>
      (\<exists>S1. (\<forall>p. pending S1 p = [] \<and>
                  free_cells (containers (queue S1) p) = pending S p @ free_cells (containers (queue S) p)) \<and>
            history S1 = history S \<and> memory S1 = memory S \<and>
            Queue_AfterFailure C run S =
              seq (run (Action_Run C a S1) S1)
                (\<lambda>S2. (Return (), S2\<lparr>queue := (queue S2)\<lparr>clear_action := None, freeze_level := 0,
                          in_process := False, in_add := False, to_add := []\<rparr>\<rparr>)))) \<and>
   (Queue_AfterFailure C run S = (Return (), S') \<longrightarrow>
      clear_action (queue S') = None \<and> to_add (queue S') = [] \<and> freeze_level (queue S') = 0 \<and>
      \<not> in_process (queue S') \<and> \<not> in_add (queue S') \<and>
      fst (Queue_AfterFailure C (\<lambda>calls S. (Abort, S)) S') = Return ())"
proof -
  let ?S1 = "S\<lparr>queue := (queue S)\<lparr>containers := (\<lambda>i. Fifo_AfterFailure (containers (queue S) i))\<rparr>\<rparr>"
  have a: "clear_action (queue S) = None \<longrightarrow>
      fst (Queue_AfterFailure C run S) = Return () \<and>
      history (snd (Queue_AfterFailure C run S)) = history S \<and>
      (\<forall>p. pending (snd (Queue_AfterFailure C run S)) p = [] \<and>
           free_cells (containers (queue (snd (Queue_AfterFailure C run S))) p) =
             pending S p @ free_cells (containers (queue S) p))"
    by (simp add: Queue_AfterFailure_def Let_def seq_def bind_result_def ok_def pending_def
          Fifo_AfterFailure_simps)
  have b: "clear_action (queue S) = Some a \<longrightarrow>
      (\<exists>S1. (\<forall>p. pending S1 p = [] \<and>
                  free_cells (containers (queue S1) p) = pending S p @ free_cells (containers (queue S) p)) \<and>
            history S1 = history S \<and> memory S1 = memory S \<and>
            Queue_AfterFailure C run S =
              seq (run (Action_Run C a S1) S1)
                (\<lambda>S2. (Return (), S2\<lparr>queue := (queue S2)\<lparr>clear_action := None, freeze_level := 0,
                          in_process := False, in_add := False, to_add := []\<rparr>\<rparr>)))"
  proof
    assume ca: "clear_action (queue S) = Some a"
    obtain out S2 where r: "run (Action_Run C a ?S1) ?S1 = (out, S2)"
      by (cases "run (Action_Run C a ?S1) ?S1")
    have "Queue_AfterFailure C run S =
              seq (run (Action_Run C a ?S1) ?S1)
                (\<lambda>S2. (Return (), S2\<lparr>queue := (queue S2)\<lparr>clear_action := None, freeze_level := 0,
                          in_process := False, in_add := False, to_add := []\<rparr>\<rparr>))"
      using ca r
      by (cases out) (simp_all add: Queue_AfterFailure_def Let_def seq_def bind_result_def ok_def)
    then show "\<exists>S1. (\<forall>p. pending S1 p = [] \<and>
                  free_cells (containers (queue S1) p) = pending S p @ free_cells (containers (queue S) p)) \<and>
            history S1 = history S \<and> memory S1 = memory S \<and>
            Queue_AfterFailure C run S =
              seq (run (Action_Run C a S1) S1)
                (\<lambda>S2. (Return (), S2\<lparr>queue := (queue S2)\<lparr>clear_action := None, freeze_level := 0,
                          in_process := False, in_add := False, to_add := []\<rparr>\<rparr>))"
      by (intro exI[of _ ?S1]) (simp add: pending_def Fifo_AfterFailure_simps)
  qed
  have c: "Queue_AfterFailure C run S = (Return (), S') \<longrightarrow>
      clear_action (queue S') = None \<and> to_add (queue S') = [] \<and> freeze_level (queue S') = 0 \<and>
      \<not> in_process (queue S') \<and> \<not> in_add (queue S') \<and>
      fst (Queue_AfterFailure C (\<lambda>calls S. (Abort, S)) S') = Return ()"
  proof
    assume r: "Queue_AfterFailure C run S = (Return (), S')"
    have f: "clear_action (queue S') = None \<and> to_add (queue S') = [] \<and> freeze_level (queue S') = 0 \<and>
      \<not> in_process (queue S') \<and> \<not> in_add (queue S')"
      using r
      by (auto simp: Queue_AfterFailure_def Let_def seq_def bind_result_def ok_def
            split: option.splits prod.splits outcome.splits)
    then have "fst (Queue_AfterFailure C (\<lambda>calls S. (Abort, S)) S') = Return ()"
      by (simp add: Queue_AfterFailure_def Let_def seq_def bind_result_def ok_def)
    with f show "clear_action (queue S') = None \<and> to_add (queue S') = [] \<and> freeze_level (queue S') = 0 \<and>
      \<not> in_process (queue S') \<and> \<not> in_add (queue S') \<and>
      fst (Queue_AfterFailure C (\<lambda>calls S. (Abort, S)) S') = Return ()"
      by simp
  qed
  from a b c show ?thesis by blast
qed

theorem AfterFailure_resets_queue_witness:
  "clear_action (queue failing_example) = Some 9 \<and>
   pending failing_example NORMAL_PRIORITY = [1, 2] \<and>
   freeze_level (queue failing_example) = 1 \<and>
   fst (Queue_AfterFailure action_client (exec action_client 3) failing_example) = Return () \<and>
   history (snd (Queue_AfterFailure action_client (exec action_client 3) failing_example)) =
     history failing_example @ [Enqueued NORMAL_PRIORITY 9] \<and>
   clear_action (queue (snd (Queue_AfterFailure action_client (exec action_client 3) failing_example))) = None \<and>
   to_add (queue (snd (Queue_AfterFailure action_client (exec action_client 3) failing_example))) = [] \<and>
   freeze_level (queue (snd (Queue_AfterFailure action_client (exec action_client 3) failing_example))) = 0 \<and>
   \<not> in_process (queue (snd (Queue_AfterFailure action_client (exec action_client 3) failing_example))) \<and>
   \<not> in_add (queue (snd (Queue_AfterFailure action_client (exec action_client 3) failing_example))) \<and>
   fst (Queue_AfterFailure action_client (\<lambda>calls S. (Abort, S))
          (snd (Queue_AfterFailure action_client (exec action_client 3) failing_example))) = Return ()"
proof -
  let ?r = "Queue_AfterFailure action_client (exec action_client 3) failing_example"
  have h: "clear_action (queue failing_example) = Some 9" by code_simp
  have p: "pending failing_example NORMAL_PRIORITY = [1, 2]" by code_simp
  have l: "freeze_level (queue failing_example) = 1" by code_simp
  have f: "fst ?r = Return ()" by code_simp
  have e: "history (snd ?r) = history failing_example @ [Enqueued NORMAL_PRIORITY 9]" by code_simp
  have r: "?r = (Return (), snd ?r)" using f by (cases ?r) simp
  from AfterFailure_resets_queue [where S=failing_example and C=action_client
         and run="exec action_client 3" and a=9 and S'="snd ?r"] r
  have "clear_action (queue (snd ?r)) = None \<and> to_add (queue (snd ?r)) = [] \<and>
        freeze_level (queue (snd ?r)) = 0 \<and> \<not> in_process (queue (snd ?r)) \<and>
        \<not> in_add (queue (snd ?r)) \<and>
        fst (Queue_AfterFailure action_client (\<lambda>calls S. (Abort, S)) (snd ?r)) = Return ()"
    by blast
  with h p l f e show ?thesis by blast
qed









end
